theory Spec2Isabelle
  imports Complex_Main "HOL-Library.Word" "HOL-Library.Sublist"
begin

section \<open>Expiring message links: a model of \<^verbatim>\<open>main.py\<close>\<close>

text \<open>
  The service has three endpoints: \<^verbatim>\<open>POST /send\<close>, \<^verbatim>\<open>GET /view/{token}\<close> and
  \<^verbatim>\<open>GET /image/{token}\<close>. Its state is the \<^verbatim>\<open>messages\<close> table of the SQLite
  database, the files on disk and the mail handed to the provider. Every endpoint is a
  function from the state before the request to a response and the state after it. What
  the outside world supplies to a request (the clock, the bytes of the random source, the
  outcome of the mail provider) is an argument of the endpoint.

  Timestamps are Python floats in the source; they are modelled as reals, so the rounding
  of \<^verbatim>\<open>now + int(ttl_seconds)\<close> is not part of the model.
\<close>

subsection \<open>Library functions used by the source\<close>

type_synonym byte = "8 word"
type_synonym bytes = "byte list"

text \<open>\<^verbatim>\<open>str.replace(old, new)\<close>: non-overlapping occurrences, from the left. With an
  empty pattern Python inserts \<^verbatim>\<open>new\<close> before every character and at the end.\<close>

function replace :: "string \<Rightarrow> string \<Rightarrow> string \<Rightarrow> string" where
  "replace old new s =
     (if old = [] then new @ concat (map (\<lambda>c. c # new) s)
      else if s = [] then []
      else if take (length old) s = old then new @ replace old new (drop (length old) s)
      else hd s # replace old new (tl s))"
  by pat_completeness auto
termination
  by (relation "measure (\<lambda>(old, new, s). length s)") auto

declare replace.simps [simp del]

text \<open>\<^verbatim>\<open>html.escape(s, quote=True)\<close>, as the standard library writes it: five
  replacements in this order, the ampersand first.\<close>

definition escape :: "string \<Rightarrow> string" where
  \<open>escape s =
     (let s = replace ''&'' ''&amp;'' s;
          s = replace ''<'' ''&lt;'' s;
          s = replace ''>'' ''&gt;'' s;
          s = replace [CHR 0x22] ''&quot;'' s;
          s = replace [CHR 0x27] ''&#x27;'' s
      in s)\<close>

text \<open>\<^verbatim>\<open>str.rfind(c)\<close> for a one-character pattern: the last index, or -1.\<close>

definition rfind :: "string \<Rightarrow> char \<Rightarrow> int" where
  "rfind p c = (case filter (\<lambda>i. p ! i = c) (rev [0..<length p]) of
                  [] \<Rightarrow> - 1 | i # _ \<Rightarrow> int i)"

text \<open>The loop of \<^verbatim>\<open>genericpath._splitext\<close> that skips leading dots: it answers
  whether some character from \<open>filenameIndex\<close> up to \<open>dotIndex\<close> is not a dot.\<close>

function skip_dots :: "string \<Rightarrow> nat \<Rightarrow> nat \<Rightarrow> bool" where
  "skip_dots p filenameIndex dotIndex =
     (if filenameIndex < dotIndex then
        (if p ! filenameIndex \<noteq> CHR ''.'' then True
         else skip_dots p (Suc filenameIndex) dotIndex)
      else False)"
  by pat_completeness auto
termination
  by (relation "measure (\<lambda>(p, i, d). d - i)") auto

declare skip_dots.simps [simp del]

text \<open>\<^verbatim>\<open>os.path.splitext\<close> on a POSIX system (separator \<^verbatim>\<open>/\<close>, no alternative
  separator, extension separator \<^verbatim>\<open>.\<close>).\<close>

definition splitext :: "string \<Rightarrow> string \<times> string" where
  "splitext p =
     (let sepIndex = rfind p CHR ''/'';
          dotIndex = rfind p CHR ''.''
      in if dotIndex > sepIndex \<and> skip_dots p (nat (sepIndex + 1)) (nat dotIndex)
         then (take (nat dotIndex) p, drop (nat dotIndex) p)
         else (p, []))"

text \<open>\<^verbatim>\<open>str.lower\<close>, on the ASCII letters (a \<^typ>\<open>char\<close> is a byte).\<close>

definition lower :: "string \<Rightarrow> string" where
  "lower s = map (\<lambda>c. if 65 \<le> (of_char c :: nat) \<and> (of_char c :: nat) \<le> 90
                        then char_of (of_char c + 32 :: nat) else c) s"

text \<open>\<^verbatim>\<open>posixpath.join(a, b)\<close>.\<close>

definition join :: "string \<Rightarrow> string \<Rightarrow> string" where
  "join a b =
     (if b \<noteq> [] \<and> hd b = CHR ''/'' then b
      else if a = [] \<or> last a = CHR ''/'' then a @ b
      else a @ ''/'' @ b)"

text \<open>\<^verbatim>\<open>str(n)\<close> for an integer, as the f-string of the mail body formats it.\<close>

fun digits :: "nat \<Rightarrow> string" where
  "digits n = (if n < 10 then [''0123456789'' ! n]
               else digits (n div 10) @ [''0123456789'' ! (n mod 10)])"

declare digits.simps [simp del]

definition str_int :: "int \<Rightarrow> string" where
  "str_int i = (if i < 0 then ''-'' @ digits (nat (- i)) else digits (nat i))"

text \<open>\<^verbatim>\<open>base64.b64encode\<close>: three bytes give four characters of the standard alphabet,
  a last group of one or two bytes is padded with \<^verbatim>\<open>=\<close>.\<close>

definition b64_alphabet :: string where
  "b64_alphabet = ''ABCDEFGHIJKLMNOPQRSTUVWXYZabcdefghijklmnopqrstuvwxyz0123456789+/''"

definition b64_char :: "nat \<Rightarrow> char" where
  "b64_char k = b64_alphabet ! (k mod 64)"

fun b64encode :: "bytes \<Rightarrow> string" where
  "b64encode [] = []"
| "b64encode [a] =
     (let n = unat a * 16
      in [b64_char (n div 64), b64_char n, CHR ''='', CHR ''=''])"
| "b64encode [a, b] =
     (let n = (unat a * 256 + unat b) * 4
      in [b64_char (n div 4096), b64_char (n div 64), b64_char n, CHR ''=''])"
| "b64encode (a # b # c # rest) =
     (let n = unat a * 65536 + unat b * 256 + unat c
      in [b64_char (n div 262144), b64_char (n div 4096), b64_char (n div 64), b64_char n]
         @ b64encode rest)"

text \<open>\<^verbatim>\<open>base64.urlsafe_b64encode\<close>: the standard encoding with \<^verbatim>\<open>+\<close> and \<^verbatim>\<open>/\<close>
  translated to \<^verbatim>\<open>-\<close> and \<^verbatim>\<open>_\<close>.\<close>

definition urlsafe_translate :: "char \<Rightarrow> char" where
  "urlsafe_translate c =
     (if c = CHR ''+'' then CHR ''-'' else if c = CHR ''/'' then CHR ''_'' else c)"

definition urlsafe_b64encode :: "bytes \<Rightarrow> string" where
  "urlsafe_b64encode s = map urlsafe_translate (b64encode s)"

definition rstrip :: "char \<Rightarrow> string \<Rightarrow> string" where
  "rstrip c s = rev (dropWhile (\<lambda>x. x = c) (rev s))"

text \<open>\<^verbatim>\<open>secrets.token_urlsafe(nbytes)\<close>, given the bytes that \<^verbatim>\<open>os.urandom(nbytes)\<close>
  returned: their URL-safe base64 text without the padding.\<close>

definition token_urlsafe :: "bytes \<Rightarrow> string" where
  "token_urlsafe tok = rstrip CHR ''='' (urlsafe_b64encode tok)"

subsection \<open>Configuration, table rows and state\<close>

text \<open>The module-level constants read from the environment at import time.\<close>

record config =
  UPLOAD_DIR :: string
  BASE_URL :: "string option"
  ACS_EMAIL_CONNECTION_STRING :: "string option"
  FROM_EMAIL :: "string option"

text \<open>A row of the table \<^verbatim>\<open>messages\<close>; \<open>image_path\<close> and \<open>image_url\<close> are the two
  nullable columns.\<close>

record message =
  token :: string
  recipient :: string
  subject :: string
  text_col :: string
  image_path :: "string option"
  image_url :: "string option"
  expires_at :: real
  created_at :: real

text \<open>The \<^verbatim>\<open>UploadFile\<close> of a request: its file name, which may be absent, and what
  \<^verbatim>\<open>read()\<close> returns. The class defines no truth value of its own, so an upload that
  is present is true in \<^verbatim>\<open>if image\<close>; the optional form field is \<open>upload option\<close>.\<close>

record upload =
  filename :: "string option"
  content :: bytes

text \<open>The message dictionary handed to the mail client.\<close>

record email =
  senderAddress :: string
  address :: string
  email_subject :: string
  plainText :: string

record state =
  messages :: "message list"
  files :: "string \<rightharpoonup> bytes"
  outbox :: "email list"

definition init_db :: state where
  "init_db = \<lparr>messages = [], files = Map.empty, outbox = []\<rparr>"

text \<open>Exceptions that no handler of the source catches; the framework answers 500.\<close>

datatype exn = IntegrityError | RuntimeError string | ProviderError

datatype response =
    HTTPException nat string
  | HTMLResponse string nat
  | FileResponse string
  | SendResult string string real
  | Unhandled exn

fun status_code :: "response \<Rightarrow> nat" where
  "status_code (HTTPException c d) = c"
| "status_code (HTMLResponse h c) = c"
| "status_code (FileResponse p) = 200"
| "status_code (SendResult st link e) = 200"
| "status_code (Unhandled e) = 500"

subsection \<open>Database access\<close>

text \<open>\<^verbatim>\<open>SELECT * FROM messages WHERE token = ?\<close> with \<^verbatim>\<open>fetchone()\<close>.\<close>

definition fetch_message :: "string \<Rightarrow> state \<Rightarrow> message option" where
  "fetch_message t s = find (\<lambda>r. token r = t) (messages s)"

text \<open>\<^verbatim>\<open>DELETE FROM messages WHERE token = ?\<close>.\<close>

definition delete_message :: "string \<Rightarrow> state \<Rightarrow> state" where
  "delete_message t s = s\<lparr>messages := filter (\<lambda>r. token r \<noteq> t) (messages s)\<rparr>"

text \<open>\<^verbatim>\<open>INSERT INTO messages ...\<close>: \<open>token\<close> is the primary key of the table, so the
  database refuses a row whose token is already stored.\<close>

definition insert_message :: "message \<Rightarrow> state \<Rightarrow> exn + state" where
  "insert_message r s =
     (if token r \<in> set (map token (messages s)) then Inl IntegrityError
      else Inr (s\<lparr>messages := messages s @ [r]\<rparr>))"

subsection \<open>The notifier\<close>

text \<open>Python's truth value of an \<^verbatim>\<open>Optional[str]\<close>: \<^verbatim>\<open>None\<close> and the empty string are
  false.\<close>

fun truthy :: "string option \<Rightarrow> bool" where
  "truthy None = False"
| "truthy (Some v) = (v \<noteq> [])"

text \<open>\<open>provider_ok\<close> says whether the calls into the mail client (building it from the
  connection string, \<^verbatim>\<open>begin_send\<close>, \<^verbatim>\<open>poller.result()\<close>) return without raising. A
  mail that was sent is appended to \<open>outbox\<close>.\<close>

definition send_email_acs ::
  "config \<Rightarrow> bool \<Rightarrow> string \<Rightarrow> string \<Rightarrow> string \<Rightarrow> state \<Rightarrow> exn + state" where
  "send_email_acs cfg provider_ok to_email subj body_text s =
     (if \<not> truthy (ACS_EMAIL_CONNECTION_STRING cfg) \<or> \<not> truthy (FROM_EMAIL cfg)
      then Inl (RuntimeError ''Missing ACS_EMAIL_CONNECTION_STRING or FROM_EMAIL env vars'')
      else if \<not> provider_ok then Inl ProviderError
      else Inr (s\<lparr>outbox := outbox s @
             [\<lparr>senderAddress = the (FROM_EMAIL cfg), address = to_email,
               email_subject = subj, plainText = body_text\<rparr>]\<rparr>))"

subsection \<open>The send endpoint\<close>

text \<open>How an f-string formats an \<^verbatim>\<open>Optional[str]\<close>.\<close>

fun fmt_opt :: "string option \<Rightarrow> string" where
  "fmt_opt None = ''None''"
| "fmt_opt (Some v) = v"

definition file_ext :: "upload \<Rightarrow> string" where
  "file_ext img =
     (let name = (case filename img of None \<Rightarrow> [] | Some n \<Rightarrow> n);
          ext = lower (snd (splitext name))
      in if ext = [] then ''.png'' else ext)"

text \<open>\<open>entropy\<close> is what the random source returns for the 24 bytes of the token,
  \<open>now\<close> is \<^verbatim>\<open>time.time()\<close>. The steps keep the order of the source: the check of
  the image sources, the file written to disk, the row inserted, the mail sent. An
  exception leaves the state that the steps before it made.\<close>

definition send_link ::
  "config \<Rightarrow> bytes \<Rightarrow> real \<Rightarrow> bool \<Rightarrow>
   string \<Rightarrow> string \<Rightarrow> int \<Rightarrow> string \<Rightarrow> upload option \<Rightarrow> string option \<Rightarrow>
   state \<Rightarrow> response \<times> state" where
  "send_link cfg entropy now provider_ok to_addr txt ttl_seconds subj img img_url s =
     (if img = None \<and> \<not> truthy img_url
      then (HTTPException 400 ''Provide image upload or image_url'', s)
      else
        let tok = token_urlsafe entropy;
            expires = now + of_int ttl_seconds;
            (path, s1) =
              (case img of
                 None \<Rightarrow> (None, s)
               | Some f \<Rightarrow>
                   let p = join (UPLOAD_DIR cfg) (tok @ file_ext f)
                   in (Some p, s\<lparr>files := (files s)(p \<mapsto> content f)\<rparr>))
        in case insert_message
                  \<lparr>token = tok, recipient = to_addr, subject = subj, text_col = txt,
                   image_path = path, image_url = img_url,
                   expires_at = expires, created_at = now\<rparr> s1 of
             Inl e \<Rightarrow> (Unhandled e, s1)
           | Inr s2 \<Rightarrow>
               let link = fmt_opt (BASE_URL cfg) @ ''/view/'' @ tok;
                   email_body = ''Open your link (expires in '' @ str_int ttl_seconds
                                @ '' seconds):'' @ [CHR 0x0A] @ link
               in case send_email_acs cfg provider_ok to_addr subj email_body s2 of
                    Inl e \<Rightarrow> (Unhandled e, s2)
                  | Inr s3 \<Rightarrow> (SendResult ''sent'' link expires, s3))"

subsection \<open>The image endpoint\<close>

definition get_image :: "string \<Rightarrow> real \<Rightarrow> state \<Rightarrow> response \<times> state" where
  "get_image t now s =
     (case fetch_message t s of
        None \<Rightarrow> (HTTPException 404 ''Not found'', s)
      | Some row \<Rightarrow>
          if now > expires_at row
          then (HTTPException 410 ''Expired'', delete_message t s)
          else (case image_path row of
                  None \<Rightarrow> (HTTPException 404 ''No stored image'', s)
                | Some p \<Rightarrow>
                    if p = [] \<or> p \<notin> dom (files s)
                    then (HTTPException 404 ''No stored image'', s)
                    else (FileResponse p, s)))"

subsection \<open>The view endpoint\<close>

definition html_head :: string where
  \<open>html_head =
     concat (map (\<lambda>l. l @ [CHR 0x0A])
       ['''',
        ''    <!doctype html>'',
        ''    <html>'',
        ''      <head>'',
        ''        <meta charset="utf-8"/>'',
        ''        <meta name="viewport" content="width=device-width,initial-scale=1"/>'',
        ''        <title>Your message</title>'',
        ''        <style>'',
        ''          body {'',
        ''            font-family: ui-sans-serif, system-ui, -apple-system, Segoe UI, Roboto, Arial;'',
        ''            margin: 0;'',
        ''            background: #f6f7fb;'',
        ''            color: #111827;'',
        ''          }'',
        ''          .wrap {'',
        ''            max-width: 860px;'',
        ''            margin: 0 auto;'',
        ''            padding: 32px 16px;'',
        ''          }'',
        ''          .card {'',
        ''            background: white;'',
        ''            border-radius: 18px;'',
        ''            box-shadow: 0 10px 30px rgba(0,0,0,.08);'',
        ''            overflow: hidden;'',
        ''          }'',
        ''          .hero {'',
        ''            width: 100%;'',
        ''            display: block;'',
        ''            object-fit: cover;'',
        ''            max-height: 420px;'',
        ''            background: #e5e7eb;'',
        ''          }'',
        ''          .content {'',
        ''            padding: 22px 22px 26px;'',
        ''          }'',
        ''          h1 {'',
        ''            font-size: 22px;'',
        ''            margin: 0 0 10px;'',
        ''            letter-spacing: -0.01em;'',
        ''          }'',
        ''          .p {'',
        ''            font-size: 16px;'',
        ''            line-height: 1.6;'',
        ''            margin: 0;'',
        ''            color: #374151;'',
        ''          }'',
        ''          .meta {'',
        ''            margin-top: 14px;'',
        ''            font-size: 12px;'',
        ''            color: #9ca3af;'',
        ''          }'',
        ''        </style>'',
        ''      </head>'',
        ''      <body>'',
        ''        <div class="wrap">'',
        ''          <div class="card">''])
     @ ''            <img class="hero" src="''\<close>

definition html_mid :: string where
  \<open>html_mid =
     concat (map (\<lambda>l. l @ [CHR 0x0A])
       [''" alt="Image"/>'',
        ''            <div class="content">'',
        ''              <h1>To My Beloved...</h1>''])
     @ ''              <p class="p">''\<close>

definition html_tail :: string where
  \<open>html_tail =
     concat (map (\<lambda>l. l @ [CHR 0x0A])
       [''</p>'',
        ''              <div class="meta">This link expires automatically.</div>'',
        ''            </div>'',
        ''          </div>'',
        ''        </div>'',
        ''      </body>'',
        ''    </html>''])
     @ ''    ''\<close>

text \<open>The f-string of the page: the text before \<^verbatim>\<open>{img_src}\<close>, between the two fields
  and after \<^verbatim>\<open>{safe_text}\<close>.\<close>

definition html_page :: "string \<Rightarrow> string \<Rightarrow> string" where
  "html_page img_src safe_text = html_head @ img_src @ html_mid @ safe_text @ html_tail"

definition safe_text_of :: "string \<Rightarrow> string" where
  "safe_text_of txt = replace [CHR 0x0A] ''<br/>'' (escape txt)"

definition img_src_of :: "message \<Rightarrow> string \<Rightarrow> string" where
  "img_src_of row t = (if truthy (image_url row) then the (image_url row) else ''/image/'' @ t)"

definition view :: "string \<Rightarrow> real \<Rightarrow> state \<Rightarrow> response \<times> state" where
  "view t now s =
     (case fetch_message t s of
        None \<Rightarrow> (HTTPException 404 ''Invalid link'', s)
      | Some row \<Rightarrow>
          if now > expires_at row
          then (HTMLResponse ''<h2>Link expired</h2>'' 410, delete_message t s)
          else (HTMLResponse (html_page (img_src_of row t) (safe_text_of (text_col row))) 200, s))"

subsection \<open>Escaped text and reachable states\<close>

text \<open>The rendering of one character that the specification asks of the page: the five
  markup characters become entities, a newline becomes a line break, every other
  character stays.\<close>

definition html_char :: "char \<Rightarrow> string" where
  \<open>html_char c =
     (if c = CHR ''&'' then ''&amp;''
      else if c = CHR ''<'' then ''&lt;''
      else if c = CHR ''>'' then ''&gt;''
      else if c = CHR 0x22 then ''&quot;''
      else if c = CHR 0x27 then ''&#x27;''
      else if c = CHR 0x0A then ''<br/>''
      else [c])\<close>

definition markup_chars :: "char set" where
  \<open>markup_chars = {CHR ''<'', CHR ''>'', CHR ''&'', CHR 0x22, CHR 0x27}\<close>

text \<open>What may stand in escaped text: a line break, one of the five entities, or a
  character that is not markup.\<close>

definition safe_tokens :: "string list" where
  \<open>safe_tokens = [''<br/>'', ''&amp;'', ''&lt;'', ''&gt;'', ''&quot;'', ''&#x27;'']\<close>

text \<open>\<open>strip_token s\<close> removes one such item from the front of a non-empty string, and
  is \<open>None\<close> when the string starts with a bare markup character.\<close>

definition strip_token :: "string \<Rightarrow> string option" where
  "strip_token s =
     (case find (\<lambda>e. prefix e s) safe_tokens of
        Some e \<Rightarrow> Some (drop (length e) s)
      | None \<Rightarrow> if hd s \<in> markup_chars then None else Some (tl s))"

text \<open>\<open>escaped s\<close>: the string carries no markup of its own. It reads the string
  from the left, one item at a time.\<close>

function escaped :: "string \<Rightarrow> bool" where
  "escaped s =
     (if s = [] then True
      else case strip_token s of None \<Rightarrow> False | Some r \<Rightarrow> escaped r)"
  by pat_completeness auto
termination
  by (relation "measure length")
     (auto simp: strip_token_def safe_tokens_def split: option.splits if_splits)

declare escaped.simps [simp del]

text \<open>The states the service can be in: the empty table, and what any request makes of
  a state. The random source returns 24 bytes to every send request.\<close>

inductive reachable :: "state \<Rightarrow> bool" where
  start: "reachable init_db"
| send: "reachable s \<Longrightarrow> length entropy = 24 \<Longrightarrow>
         reachable (snd (send_link cfg entropy now provider_ok to_addr txt ttl_seconds
                           subj img img_url s))"
| viewed: "reachable s \<Longrightarrow> reachable (snd (view t now s))"
| image: "reachable s \<Longrightarrow> reachable (snd (get_image t now s))"

text \<open>The alphabet of a token: the standard one with its last two characters
  translated.\<close>

definition url_alphabet :: string where
  "url_alphabet = ''ABCDEFGHIJKLMNOPQRSTUVWXYZabcdefghijklmnopqrstuvwxyz0123456789-_''"

subsection \<open>Example data\<close>

definition ex_cfg :: config where
  "ex_cfg = \<lparr>UPLOAD_DIR = ''/home/site/data/uploads'',
              BASE_URL = Some ''https://links.example'',
              ACS_EMAIL_CONNECTION_STRING = Some ''endpoint=https://acs.example/;accesskey=k'',
              FROM_EMAIL = Some ''DoNotReply@links.example''\<rparr>"

text \<open>A configuration without the mail settings: \<^verbatim>\<open>send_email_acs\<close> raises.\<close>

definition ex_cfg_nomail :: config where
  "ex_cfg_nomail = ex_cfg\<lparr>ACS_EMAIL_CONNECTION_STRING := None\<rparr>"

definition ex_entropy :: bytes where
  "ex_entropy = [0, 0, 0, 0, 0, 0, 0, 0, 0, 0, 0, 0, 0, 0, 0, 0, 0, 0, 0, 0, 0, 0, 0, 0]"

definition ex_token :: string where
  "ex_token = ''AAAAAAAAAAAAAAAAAAAAAAAAAAAAAAAA''"

definition ex_upload :: upload where
  "ex_upload = \<lparr>filename = Some ''Photo.JPG'', content = [137, 80, 78, 71]\<rparr>"

definition ex_row :: message where
  "ex_row = \<lparr>token = ''tok1'', recipient = ''reader@mail.example'',
              subject = ''Your secure link'', text_col = ''<b>Hi</b> & bye'',
              image_path = Some ''/home/site/data/uploads/tok1.png'', image_url = None,
              expires_at = 3700, created_at = 100\<rparr>"

text \<open>A row whose file is not on disk.\<close>

definition ex_row_nofile :: message where
  "ex_row_nofile = ex_row\<lparr>token := ''tok2'', image_path := Some ''/home/site/data/uploads/tok2.png''\<rparr>"

definition ex_state :: state where
  "ex_state = \<lparr>messages = [ex_row, ex_row_nofile],
                files = [''/home/site/data/uploads/tok1.png'' \<mapsto> [137, 80, 78, 71]],
                outbox = []\<rparr>"

text \<open>Three send requests on the empty table, at time 100 with a time-to-live of 3600
  seconds: an upload while the mail settings are missing, an image URL alone, and an
  upload together with an image URL.\<close>

definition ex_send_nomail :: "response \<times> state" where
  "ex_send_nomail =
     send_link ex_cfg_nomail ex_entropy 100 True ''reader@mail.example'' ''hello'' 3600
       ''Your secure link'' (Some ex_upload) None init_db"

definition ex_send_url :: "response \<times> state" where
  "ex_send_url =
     send_link ex_cfg ex_entropy 100 True ''reader@mail.example'' ''hello'' 3600
       ''Your secure link'' None (Some ''https://img.example/a.png'') init_db"

definition ex_send_both :: "response \<times> state" where
  "ex_send_both =
     send_link ex_cfg ex_entropy 100 True ''reader@mail.example'' ''hello'' 3600
       ''Your secure link'' (Some ex_upload) (Some ''https://img.example/a.png'') init_db"

text \<open>A send request whose image URL closes the attribute and the tag it is put in.\<close>

definition ex_send_markup :: "response \<times> state" where
  \<open>ex_send_markup =
     send_link ex_cfg ex_entropy 100 True ''reader@mail.example'' ''hello'' 3600
       ''Your secure link'' None (Some ''"><script>alert(1)</script><img src="'') init_db\<close>

section \<open>Properties\<close>

subsection \<open>Escaping\<close>


lemma replace_char:
  "replace [c] new s = concat (map (\<lambda>x. if x = c then new else [x]) s)"
proof (induction s)
  case Nil
  show ?case by (subst replace.simps) simp
next
  case (Cons x xs)
  show ?case by (subst replace.simps) (simp add: Cons.IH)
qed

lemma concat_map_concat:
  "concat (map f (concat xss)) = concat (map (\<lambda>xs. concat (map f xs)) xss)"
  by (induction xss) simp_all

lemma safe_text_of_chars: "safe_text_of txt = concat (map html_char txt)"
proof -
  have "safe_text_of txt =
        concat (map (\<lambda>x. concat (map (\<lambda>x. concat (map (\<lambda>x. concat (map (\<lambda>x. concat
          (map (\<lambda>x. concat (map (\<lambda>x. if x = CHR 0x0A then ''<br/>'' else [x])
             (if x = CHR 0x27 then ''&#x27;'' else [x])))
             (if x = CHR 0x22 then ''&quot;'' else [x])))
             (if x = CHR ''>'' then ''&gt;'' else [x])))
             (if x = CHR ''<'' then ''&lt;'' else [x])))
             (if x = CHR ''&'' then ''&amp;'' else [x]))) txt)"
    unfolding safe_text_of_def escape_def Let_def replace_char
    by (simp add: concat_map_concat comp_def)
  also have "\<dots> = concat (map html_char txt)"
    by (intro arg_cong[where f = concat] map_cong refl) (simp add: html_char_def)
  finally show ?thesis .
qed

lemma escaped_Nil: "escaped []" by (subst escaped.simps) simp

lemma escaped_html_char: "escaped (html_char c @ s) = escaped s"
  by (subst escaped.simps)
     (simp add: html_char_def strip_token_def safe_tokens_def markup_chars_def)

lemma escaped_safe_text: "escaped (safe_text_of txt)"
  unfolding safe_text_of_chars
  by (induction "txt") (simp_all add: escaped_Nil escaped_html_char)

lemma escaped_quote: "escaped s \<Longrightarrow> CHR 0x22 \<notin> set s \<and> CHR 0x27 \<notin> set s"
proof (induction s rule: escaped.induct)
  case (1 s)
  show ?case
  proof (cases "s = []")
    case True then show ?thesis by simp
  next
    case False
    from "1.prems" False obtain r where r: "strip_token s = Some r" "escaped r"
      by (subst (asm) escaped.simps) (auto split: option.splits)
    from "1.IH"[OF False r(1) r(2)] have ih: "CHR 0x22 \<notin> set r \<and> CHR 0x27 \<notin> set r" .
    from r(1) False ih show ?thesis
      by (cases s) (auto simp: strip_token_def safe_tokens_def markup_chars_def prefix_def
           split: option.splits if_splits)
  qed
qed


lemma html_char_lt:
  "i < length (html_char c) \<Longrightarrow> html_char c ! i = CHR ''<'' \<Longrightarrow> i = 0 \<and> html_char c = ''<br/>''"
  by (auto simp: html_char_def nth_Cons' split: if_splits)

lemma lt_in_safe_text:
  "i < length (concat (map html_char txt)) \<Longrightarrow> concat (map html_char txt) ! i = CHR ''<'' \<Longrightarrow>
   take 5 (drop i (concat (map html_char txt))) = ''<br/>''"
proof (induction "txt" arbitrary: i)
  case Nil
  then show ?case by simp
next
  case (Cons c cs)
  show ?case
  proof (cases "i < length (html_char c)")
    case True
    with Cons.prems have "html_char c ! i = CHR ''<''" by (simp add: nth_append)
    with True have "i = 0" "html_char c = ''<br/>''" using html_char_lt by blast+
    then show ?thesis by simp
  next
    case False
    with Cons.prems have a: "i - length (html_char c) < length (concat (map html_char cs))"
      and b: "concat (map html_char cs) ! (i - length (html_char c)) = CHR ''<''"
      by (auto simp: nth_append)
    from Cons.IH[OF a b] False show ?thesis by simp
  qed
qed

lemma html_char_gt:
  "i < length (html_char c) \<Longrightarrow> html_char c ! i = CHR ''>'' \<Longrightarrow> i = 4 \<and> html_char c = ''<br/>''"
  by (auto simp: html_char_def nth_Cons' split: if_splits)

lemma html_char_amp:
  "i < length (html_char c) \<Longrightarrow> html_char c ! i = CHR ''&'' \<Longrightarrow>
   i = 0 \<and> html_char c \<in> {''&amp;'', ''&lt;'', ''&gt;'', ''&quot;'', ''&#x27;''}"
  by (auto simp: html_char_def nth_Cons' split: if_splits)

lemma amp_in_safe_text:
  "i < length (concat (map html_char txt)) \<Longrightarrow> concat (map html_char txt) ! i = CHR ''&'' \<Longrightarrow>
   \<exists>e \<in> {''&amp;'', ''&lt;'', ''&gt;'', ''&quot;'', ''&#x27;''}. prefix e (drop i (concat (map html_char txt)))"
proof (induction "txt" arbitrary: i)
  case Nil
  then show ?case by simp
next
  case (Cons c cs)
  show ?case
  proof (cases "i < length (html_char c)")
    case True
    with Cons.prems have "html_char c ! i = CHR ''&''" by (simp add: nth_append)
    with True have "i = 0" "html_char c \<in> {''&amp;'', ''&lt;'', ''&gt;'', ''&quot;'', ''&#x27;''}"
      using html_char_amp by blast+
    then show ?thesis by auto
  next
    case False
    with Cons.prems have a: "i - length (html_char c) < length (concat (map html_char cs))"
      and b: "concat (map html_char cs) ! (i - length (html_char c)) = CHR ''&''"
      by (auto simp: nth_append)
    from Cons.IH[OF a b] False show ?thesis by simp
  qed
qed

lemma gt_in_safe_text:
  "i < length (concat (map html_char txt)) \<Longrightarrow> concat (map html_char txt) ! i = CHR ''>'' \<Longrightarrow>
   4 \<le> i \<and> take 5 (drop (i - 4) (concat (map html_char txt))) = ''<br/>''"
proof (induction "txt" arbitrary: i)
  case Nil
  then show ?case by simp
next
  case (Cons c cs)
  show ?case
  proof (cases "i < length (html_char c)")
    case True
    with Cons.prems have "html_char c ! i = CHR ''>''" by (simp add: nth_append)
    with True have "i = 4" "html_char c = ''<br/>''" using html_char_gt by blast+
    then show ?thesis by simp
  next
    case False
    with Cons.prems have a: "i - length (html_char c) < length (concat (map html_char cs))"
      and b: "concat (map html_char cs) ! (i - length (html_char c)) = CHR ''>''"
      by (auto simp: nth_append)
    from Cons.IH[OF a b] have ih: "4 \<le> i - length (html_char c)"
       "take 5 (drop (i - length (html_char c) - 4) (concat (map html_char cs))) = ''<br/>''" by auto
    from ih(1) have "i - 4 \<ge> length (html_char c)" by arith
    then have "drop (i - 4) (html_char c @ concat (map html_char cs))
        = drop (i - 4 - length (html_char c)) (concat (map html_char cs))" by simp
    moreover have "i - 4 - length (html_char c) = i - length (html_char c) - 4" by arith
    ultimately show ?thesis using ih by simp
  qed
qed

subsection \<open>Requests\<close>

lemma find_filter_other:
  "t' \<noteq> t \<Longrightarrow> find (\<lambda>r. f r = t') (filter (\<lambda>r. f r \<noteq> t) xs) = find (\<lambda>r. f r = t') xs"
  by (induction xs) auto

lemma fetch_delete_same: "fetch_message t (delete_message t s) = None"
  by (simp add: fetch_message_def delete_message_def find_None_iff)

lemma fetch_delete_other:
  "t' \<noteq> t \<Longrightarrow> fetch_message t' (delete_message t s) = fetch_message t' s"
  by (simp add: fetch_message_def delete_message_def find_filter_other)

lemma fetch_Some_token: "fetch_message t s = Some row \<Longrightarrow> token row = t \<and> row \<in> set (messages s)"
  by (auto simp: fetch_message_def find_Some_iff)

lemma fetch_None_iff: "fetch_message t s = None \<longleftrightarrow> t \<notin> token ` set (messages s)"
  by (auto simp: fetch_message_def find_None_iff)

lemma delete_frame [simp]:
  "files (delete_message t s) = files s" "outbox (delete_message t s) = outbox s"
  by (simp_all add: delete_message_def)

lemma view_missing:
  "fetch_message t s = None \<Longrightarrow> view t now s = (HTTPException 404 ''Invalid link'', s)"
  by (simp add: view_def)

lemma view_expired:
  "fetch_message t s = Some row \<Longrightarrow> now > expires_at row \<Longrightarrow>
   view t now s = (HTMLResponse ''<h2>Link expired</h2>'' 410, delete_message t s)"
  by (simp add: view_def)

lemma view_live:
  "fetch_message t s = Some row \<Longrightarrow> \<not> now > expires_at row \<Longrightarrow>
   view t now s = (HTMLResponse (html_page (img_src_of row t) (safe_text_of (text_col row))) 200, s)"
  by (simp add: view_def)

lemma get_image_missing:
  "fetch_message t s = None \<Longrightarrow> get_image t now s = (HTTPException 404 ''Not found'', s)"
  by (simp add: get_image_def)

lemma get_image_expired:
  "fetch_message t s = Some row \<Longrightarrow> now > expires_at row \<Longrightarrow>
   get_image t now s = (HTTPException 410 ''Expired'', delete_message t s)"
  by (simp add: get_image_def)

lemma get_image_live:
  "fetch_message t s = Some row \<Longrightarrow> \<not> now > expires_at row \<Longrightarrow>
   get_image t now s =
     (if truthy (image_path row) \<and> the (image_path row) \<in> dom (files s)
      then FileResponse (the (image_path row))
      else HTTPException 404 ''No stored image'', s)"
  by (cases "image_path row") (auto simp: get_image_def)

lemma send_link_reject:
  "img = None \<Longrightarrow> \<not> truthy img_url \<Longrightarrow>
   send_link cfg entropy now provider_ok to_addr body ttl subj img img_url s =
     (HTTPException 400 ''Provide image upload or image_url'', s)"
  by (simp add: send_link_def)

lemma send_link_messages:
  assumes "img \<noteq> None \<or> truthy img_url"
    and "token_urlsafe entropy \<notin> token ` set (messages s)"
  shows "messages (snd (send_link cfg entropy now provider_ok to_addr body ttl subj img img_url s)) =
         messages s @
         [\<lparr>token = token_urlsafe entropy, recipient = to_addr, subject = subj, text_col = body,
           image_path = map_option (\<lambda>f. join (UPLOAD_DIR cfg) (token_urlsafe entropy @ file_ext f)) img,
           image_url = img_url, expires_at = now + of_int ttl, created_at = now\<rparr>]"
  using assms
  by (auto simp: send_link_def insert_message_def send_email_acs_def Let_def
           split: option.splits sum.splits)

lemma send_link_files:
  "files (snd (send_link cfg entropy now provider_ok to_addr body ttl subj img img_url s)) =
     (case img of None \<Rightarrow> files s
      | Some f \<Rightarrow> (files s)(join (UPLOAD_DIR cfg) (token_urlsafe entropy @ file_ext f) \<mapsto> content f))"
  by (auto simp: send_link_def insert_message_def send_email_acs_def Let_def
           split: option.splits sum.splits)

lemma send_link_duplicate:
  assumes "img \<noteq> None \<or> truthy img_url"
    and "token_urlsafe entropy \<in> token ` set (messages s)"
  shows "fst (send_link cfg entropy now provider_ok to_addr body ttl subj img img_url s) = Unhandled IntegrityError"
    and "messages (snd (send_link cfg entropy now provider_ok to_addr body ttl subj img img_url s)) = messages s"
  using assms
  by (auto simp: send_link_def insert_message_def send_email_acs_def Let_def
           split: option.splits sum.splits)

lemma send_link_response:
  assumes "img \<noteq> None \<or> truthy img_url"
    and "token_urlsafe entropy \<notin> token ` set (messages s)"
  shows "fst (send_link cfg entropy now provider_ok to_addr body ttl subj img img_url s) =
     (if \<not> truthy (ACS_EMAIL_CONNECTION_STRING cfg) \<or> \<not> truthy (FROM_EMAIL cfg)
      then Unhandled (RuntimeError ''Missing ACS_EMAIL_CONNECTION_STRING or FROM_EMAIL env vars'')
      else if \<not> provider_ok then Unhandled ProviderError
      else SendResult ''sent'' (fmt_opt (BASE_URL cfg) @ ''/view/'' @ token_urlsafe entropy)
             (now + of_int ttl))"
  using assms
  by (auto simp: send_link_def insert_message_def send_email_acs_def Let_def
           split: option.splits sum.splits)

lemma send_link_outbox:
  "outbox (snd (send_link cfg entropy now provider_ok to_addr body ttl subj img img_url s)) = outbox s \<or>
   (\<exists>m. outbox (snd (send_link cfg entropy now provider_ok to_addr body ttl subj img img_url s)) = outbox s @ [m])"
  by (auto simp: send_link_def insert_message_def send_email_acs_def Let_def
           split: option.splits sum.splits)

lemma file_ext_nonempty: "file_ext f \<noteq> []"
  by (simp add: file_ext_def Let_def)

lemma join_nonempty: "b \<noteq> [] \<Longrightarrow> join a b \<noteq> []"
  by (simp add: join_def)

lemma upload_path_nonempty: "join d (tok @ file_ext f) \<noteq> []"
  by (rule join_nonempty) (simp add: file_ext_nonempty)

lemma view_files: "files (snd (view t now s)) = files s"
  by (simp add: view_def split: option.splits)

lemma get_image_files: "files (snd (get_image t now s)) = files s"
  by (simp add: get_image_def split: option.splits)

lemma view_outbox: "outbox (snd (view t now s)) = outbox s"
  by (simp add: view_def split: option.splits)

lemma get_image_outbox: "outbox (snd (get_image t now s)) = outbox s"
  by (simp add: get_image_def split: option.splits)

lemma send_link_dom_files:
  "dom (files s) \<subseteq>
   dom (files (snd (send_link cfg entropy now provider_ok to_addr body ttl subj img img_url s)))"
  by (auto simp: send_link_files split: option.splits)

lemma find_snoc:
  "find P xs = None \<Longrightarrow> find P (xs @ [x]) = (if P x then Some x else None)"
  by (induction xs) (auto split: if_splits)

lemma send_link_fetch:
  assumes "img \<noteq> None \<or> truthy img_url"
    and "token_urlsafe entropy \<notin> token ` set (messages s)"
  shows "fetch_message (token_urlsafe entropy)
           (snd (send_link cfg entropy now provider_ok to_addr body ttl subj img img_url s)) =
         Some \<lparr>token = token_urlsafe entropy, recipient = to_addr, subject = subj,
               text_col = body,
               image_path = map_option
                 (\<lambda>f. join (UPLOAD_DIR cfg) (token_urlsafe entropy @ file_ext f)) img,
               image_url = img_url, expires_at = now + of_int ttl, created_at = now\<rparr>"
proof -
  from assms(2) have "find (\<lambda>r. token r = token_urlsafe entropy) (messages s) = None"
    by (force simp: find_None_iff)
  then show ?thesis
    unfolding fetch_message_def send_link_messages [OF assms]
    by (simp add: find_snoc)
qed

subsection \<open>Tokens\<close>

lemma b64_alphabet_distinct: "distinct b64_alphabet"
  by (simp add: b64_alphabet_def)

lemma b64_alphabet_length: "length b64_alphabet = 64"
  by (simp add: b64_alphabet_def)

lemma url_alphabet_map: "map urlsafe_translate b64_alphabet = url_alphabet"
  by (simp add: b64_alphabet_def url_alphabet_def urlsafe_translate_def)

lemma url_alphabet_distinct: "distinct url_alphabet"
  by (simp add: url_alphabet_def)

lemma url_char: "urlsafe_translate (b64_char k) = url_alphabet ! (k mod 64)"
  unfolding b64_char_def url_alphabet_map [symmetric]
  by (simp add: b64_alphabet_length)

lemma url_char_inj:
  "urlsafe_translate (b64_char j) = urlsafe_translate (b64_char k) \<Longrightarrow> j mod 64 = k mod 64"
  unfolding url_char
  using url_alphabet_distinct
  by (simp add: nth_eq_iff_index_eq url_alphabet_def)

lemma url_char_in: "urlsafe_translate (b64_char k) \<in> set url_alphabet"
  unfolding url_char by (rule nth_mem) (simp add: url_alphabet_def)

lemma div_mod_64: "(x::nat) div 64 = y div 64 \<Longrightarrow> x mod 64 = y mod 64 \<Longrightarrow> x = y"
  by (metis div_mult_mod_eq)

lemma sextets_inj:
  fixes n m :: nat
  assumes "n < 16777216" "m < 16777216"
    and a: "n div 262144 mod 64 = m div 262144 mod 64"
    and b: "n div 4096 mod 64 = m div 4096 mod 64"
    and c: "n div 64 mod 64 = m div 64 mod 64"
    and d: "n mod 64 = m mod 64"
  shows "n = m"
proof -
  from assms(1,2) have "n div 262144 < 64" "m div 262144 < 64" by simp_all
  with a have "n div 262144 = m div 262144" by simp
  moreover have "n div (4096 * 64) = n div 4096 div 64" "m div (4096 * 64) = m div 4096 div 64"
    by (rule div_mult2_eq)+
  ultimately have "n div 4096 div 64 = m div 4096 div 64" by simp
  then have "n div 4096 = m div 4096" using b by (rule div_mod_64)
  moreover have "n div (64 * 64) = n div 64 div 64" "m div (64 * 64) = m div 64 div 64"
    by (rule div_mult2_eq)+
  ultimately have "n div 64 div 64 = m div 64 div 64" by simp
  then have "n div 64 = m div 64" using c by (rule div_mod_64)
  then show ?thesis using d by (rule div_mod_64)
qed

lemma unat_byte: "unat (a :: byte) < 256"
  using unsigned_less [of a, where ?'a = nat] by simp

lemma mod_256: "z < 256 \<Longrightarrow> (w * 256 + z) mod 256 = (z::nat)"
  by simp

lemma div_256: "z < 256 \<Longrightarrow> (w * 256 + z) div 256 = (w::nat)"
  by simp

lemma triple_decomp:
  fixes x y z :: nat
  assumes "y < 256" "z < 256"
  shows "(x * 65536 + y * 256 + z) div 256 div 256 = x"
    and "(x * 65536 + y * 256 + z) div 256 mod 256 = y"
    and "(x * 65536 + y * 256 + z) mod 256 = z"
proof -
  have e: "x * 65536 + y * 256 + z = (x * 256 + y) * 256 + z" by simp
  show "(x * 65536 + y * 256 + z) mod 256 = z"
    by (subst e) (rule mod_256 [OF assms(2)])
  have d: "(x * 65536 + y * 256 + z) div 256 = x * 256 + y"
    by (subst e) (rule div_256 [OF assms(2)])
  show "(x * 65536 + y * 256 + z) div 256 mod 256 = y"
    by (subst d) (rule mod_256 [OF assms(1)])
  show "(x * 65536 + y * 256 + z) div 256 div 256 = x"
    by (subst d) (rule div_256 [OF assms(1)])
qed

lemma triple_inj:
  fixes a b c a' b' c' :: byte
  assumes "unat a * 65536 + unat b * 256 + unat c = unat a' * 65536 + unat b' * 256 + unat c'"
  shows "a = a' \<and> b = b' \<and> c = c'"
proof -
  note l = triple_decomp [OF unat_byte [of b] unat_byte [of c], of "unat a"]
  note r = triple_decomp [OF unat_byte [of b'] unat_byte [of c'], of "unat a'"]
  have "unat a = unat a'" using l(1) r(1) unfolding assms by (rule trans [OF sym])
  moreover have "unat b = unat b'" using l(2) r(2) unfolding assms by (rule trans [OF sym])
  moreover have "unat c = unat c'" using l(3) r(3) unfolding assms by (rule trans [OF sym])
  ultimately show ?thesis by (simp add: word_unat_eq_iff)
qed

lemma triple_bound:
  fixes a b c :: byte
  shows "unat a * 65536 + unat b * 256 + unat c < 16777216"
  using unat_byte [of a] unat_byte [of b] unat_byte [of c] by linarith

lemma urlsafe_b64encode_inj:
  "length xs = length ys \<Longrightarrow> length xs mod 3 = 0 \<Longrightarrow>
   urlsafe_b64encode xs = urlsafe_b64encode ys \<Longrightarrow> xs = ys"
proof (induction xs arbitrary: ys rule: b64encode.induct)
  case 1
  then show ?case by simp
next
  case (2 a)
  then show ?case by simp
next
  case (3 a b)
  then show ?case by (simp add: numeral_2_eq_2)
next
  case (4 a b c rest)
  from "4.prems"(1) obtain a' b' c' rest' where ys: "ys = a' # b' # c' # rest'"
    by (cases ys; cases "tl ys"; cases "tl (tl ys)") auto
  let ?n = "unat a * 65536 + unat b * 256 + unat c"
  let ?m = "unat a' * 65536 + unat b' * 256 + unat c'"
  from "4.prems"(3) have chars:
    "urlsafe_translate (b64_char (?n div 262144)) = urlsafe_translate (b64_char (?m div 262144))"
    "urlsafe_translate (b64_char (?n div 4096)) = urlsafe_translate (b64_char (?m div 4096))"
    "urlsafe_translate (b64_char (?n div 64)) = urlsafe_translate (b64_char (?m div 64))"
    "urlsafe_translate (b64_char ?n) = urlsafe_translate (b64_char ?m)"
    and rest: "urlsafe_b64encode rest = urlsafe_b64encode rest'"
    unfolding ys urlsafe_b64encode_def
    by (simp_all add: Let_def)
  have eqs:
    "?n div 262144 mod 64 = ?m div 262144 mod 64"
    "?n div 4096 mod 64 = ?m div 4096 mod 64"
    "?n div 64 mod 64 = ?m div 64 mod 64"
    "?n mod 64 = ?m mod 64"
    by (rule url_char_inj, rule chars)+
  have "?n = ?m"
    by (rule sextets_inj [OF triple_bound triple_bound eqs])
  then have "a = a' \<and> b = b' \<and> c = c'" by (rule triple_inj)
  moreover from "4.prems"(1,2) have "length rest = length rest'" "length rest mod 3 = 0"
    by (simp_all add: ys)
  then have "rest = rest'" using rest by (rule "4.IH" [OF refl])
  ultimately show ?case by (simp add: ys)
qed

lemma urlsafe_b64encode_chars:
  "length xs mod 3 = 0 \<Longrightarrow> set (urlsafe_b64encode xs) \<subseteq> set url_alphabet \<and> length (urlsafe_b64encode xs) * 3 = length xs * 4"
proof (induction xs rule: b64encode.induct)
  case (4 a b c rest)
  then show ?case by (simp add: urlsafe_b64encode_def Let_def url_char_in)
qed (simp_all add: urlsafe_b64encode_def)

lemma rstrip_absent: "c \<notin> set s \<Longrightarrow> rstrip c s = s"
  unfolding rstrip_def by (cases "rev s") (auto simp: rev_swap [symmetric])

lemma token_urlsafe_plain: "length xs mod 3 = 0 \<Longrightarrow> token_urlsafe xs = urlsafe_b64encode xs"
  unfolding token_urlsafe_def
  using urlsafe_b64encode_chars [of xs]
  by (intro rstrip_absent) (auto simp: url_alphabet_def)

lemma token_urlsafe_inj: "inj_on token_urlsafe {e. length e = 24}"
  by (rule inj_onI) (simp add: token_urlsafe_plain urlsafe_b64encode_inj)

lemma token_urlsafe_shape:
  "length e = 24 \<Longrightarrow> length (token_urlsafe e) = 32 \<and> set (token_urlsafe e) \<subseteq> set url_alphabet"
  using urlsafe_b64encode_chars [of e] by (simp add: token_urlsafe_plain)

subsection \<open>The examples\<close>

lemma ex_token_eq: "token_urlsafe ex_entropy = ex_token"
  by (simp add: ex_entropy_def ex_token_def token_urlsafe_def urlsafe_b64encode_def rstrip_def
        b64_char_def b64_alphabet_def urlsafe_translate_def)

lemma ex_file_ext: "file_ext ex_upload = ''.jpg''"
  by code_simp

lemma ex_path:
  "join (UPLOAD_DIR ex_cfg) (ex_token @ ''.jpg'') =
   ''/home/site/data/uploads/AAAAAAAAAAAAAAAAAAAAAAAAAAAAAAAA.jpg''"
  by (simp add: join_def ex_cfg_def ex_token_def)

lemma ex_fresh: "token_urlsafe ex_entropy \<notin> token ` set (messages init_db)"
  by (simp add: init_db_def)

lemma ex_send_url_row:
  "messages (snd ex_send_url) =
     [\<lparr>token = ex_token, recipient = ''reader@mail.example'', subject = ''Your secure link'',
       text_col = ''hello'', image_path = None,
       image_url = Some ''https://img.example/a.png'', expires_at = 3700, created_at = 100\<rparr>]"
proof -
  have a: "None \<noteq> (None :: upload option) \<or> truthy (Some ''https://img.example/a.png'')"
    by simp
  show ?thesis
    unfolding ex_send_url_def send_link_messages [OF a ex_fresh]
    by (simp add: ex_token_eq init_db_def)
qed

lemma ex_send_both_row:
  "messages (snd ex_send_both) =
     [\<lparr>token = ex_token, recipient = ''reader@mail.example'', subject = ''Your secure link'',
       text_col = ''hello'',
       image_path = Some ''/home/site/data/uploads/AAAAAAAAAAAAAAAAAAAAAAAAAAAAAAAA.jpg'',
       image_url = Some ''https://img.example/a.png'', expires_at = 3700, created_at = 100\<rparr>]"
proof -
  have a: "Some ex_upload \<noteq> None \<or> truthy (Some ''https://img.example/a.png'')"
    by simp
  show ?thesis
    unfolding ex_send_both_def send_link_messages [OF a ex_fresh]
    by (simp add: ex_token_eq ex_file_ext ex_path init_db_def)
qed

lemma ex_send_both_files:
  "files (snd ex_send_both) =
     [''/home/site/data/uploads/AAAAAAAAAAAAAAAAAAAAAAAAAAAAAAAA.jpg'' \<mapsto> content ex_upload]"
  unfolding ex_send_both_def send_link_files
  by (simp add: ex_token_eq ex_file_ext ex_path init_db_def)

lemma ex_send_url_files: "files (snd ex_send_url) = Map.empty"
  unfolding ex_send_url_def send_link_files
  by (simp add: init_db_def)

lemma ex_send_url_response:
  "fst ex_send_url =
     SendResult ''sent'' ''https://links.example/view/AAAAAAAAAAAAAAAAAAAAAAAAAAAAAAAA'' 3700"
proof -
  have a: "None \<noteq> (None :: upload option) \<or> truthy (Some ''https://img.example/a.png'')"
    by simp
  show ?thesis
    unfolding ex_send_url_def send_link_response [OF a ex_fresh]
    by (simp add: ex_token_eq ex_token_def ex_cfg_def)
qed

lemma ex_send_both_response:
  "fst ex_send_both =
     SendResult ''sent'' ''https://links.example/view/AAAAAAAAAAAAAAAAAAAAAAAAAAAAAAAA'' 3700"
proof -
  have a: "Some ex_upload \<noteq> None \<or> truthy (Some ''https://img.example/a.png'')"
    by simp
  show ?thesis
    unfolding ex_send_both_def send_link_response [OF a ex_fresh]
    by (simp add: ex_token_eq ex_token_def ex_cfg_def)
qed


section \<open>The claims\<close>

subsection \<open>Lookup and expiry\<close>

text \<open>
  C2. For every token, the view endpoint and the image endpoint respond 404 when no row
  with that token is stored. When a row is stored and the clock is past its
  \<open>expires_at\<close>, both respond 410, and the state they leave is the one
  \<open>delete_message\<close> makes: the row is gone from the table, the other rows and the
  files are as before.
\<close>

theorem missing_404_expired_410:
  "(fetch_message t s = None \<longrightarrow>
      view t now s = (HTTPException 404 ''Invalid link'', s) \<and>
      get_image t now s = (HTTPException 404 ''Not found'', s)) \<and>
   (\<forall>row. fetch_message t s = Some row \<and> now > expires_at row \<longrightarrow>
      view t now s = (HTMLResponse ''<h2>Link expired</h2>'' 410, delete_message t s) \<and>
      get_image t now s = (HTTPException 410 ''Expired'', delete_message t s) \<and>
      fetch_message t (delete_message t s) = None \<and>
      messages (delete_message t s) = filter (\<lambda>r. token r \<noteq> t) (messages s) \<and>
      files (delete_message t s) = files s)"
proof -
  have "messages (delete_message t s) = filter (\<lambda>r. token r \<noteq> t) (messages s)"
    by (simp add: delete_message_def)
  then show ?thesis
    by (simp add: view_missing get_image_missing view_expired get_image_expired
          fetch_delete_same)
qed

theorem missing_404_expired_410_witness:
  "fetch_message ''none'' ex_state = None \<and>
   status_code (fst (view ''none'' 5000 ex_state)) = 404 \<and>
   status_code (fst (get_image ''none'' 5000 ex_state)) = 404 \<and>
   fetch_message ''tok1'' ex_state = Some ex_row \<and> 5000 > expires_at ex_row \<and>
   status_code (fst (view ''tok1'' 5000 ex_state)) = 410 \<and>
   status_code (fst (get_image ''tok1'' 5000 ex_state)) = 410 \<and>
   map token (messages (snd (view ''tok1'' 5000 ex_state))) = [''tok2''] \<and>
   map token (messages (snd (get_image ''tok1'' 5000 ex_state))) = [''tok2'']"
proof -
  have h1: "fetch_message ''none'' ex_state = None"
    by (simp add: fetch_message_def ex_state_def ex_row_def ex_row_nofile_def)
  have h2: "fetch_message ''tok1'' ex_state = Some ex_row"
    by (simp add: fetch_message_def ex_state_def ex_row_def)
  have h3: "5000 > expires_at ex_row"
    by (simp add: ex_row_def)
  have m: "map token (filter (\<lambda>r. token r \<noteq> ''tok1'') (messages ex_state)) = [''tok2'']"
    by (simp add: ex_state_def ex_row_def ex_row_nofile_def)
  show ?thesis
    using missing_404_expired_410 [of "''none''" ex_state 5000]
      missing_404_expired_410 [of "''tok1''" ex_state 5000] h1 h2 h3 m
    by simp
qed

text \<open>
  C7. When a row is stored and not expired, and it has no image path or its image path
  names no file on disk, the image endpoint responds 404 and leaves the state as it
  was.
\<close>

theorem image_without_file_404:
  assumes "fetch_message t s = Some row" and "\<not> now > expires_at row"
    and "image_path row = None \<or> (\<exists>p. image_path row = Some p \<and> p \<notin> dom (files s))"
  shows "get_image t now s = (HTTPException 404 ''No stored image'', s)"
  using assms by (auto simp: get_image_def domIff)

theorem image_without_file_404_witness:
  "fetch_message ''tok2'' ex_state = Some ex_row_nofile \<and>
   \<not> 200 > expires_at ex_row_nofile \<and>
   image_path ex_row_nofile = Some ''/home/site/data/uploads/tok2.png'' \<and>
   ''/home/site/data/uploads/tok2.png'' \<notin> dom (files ex_state) \<and>
   get_image ''tok2'' 200 ex_state = (HTTPException 404 ''No stored image'', ex_state)"
proof -
  have h1: "fetch_message ''tok2'' ex_state = Some ex_row_nofile"
    by (simp add: fetch_message_def ex_state_def ex_row_def ex_row_nofile_def)
  have h2: "\<not> 200 > expires_at ex_row_nofile"
    by (simp add: ex_row_def ex_row_nofile_def)
  have h3: "image_path ex_row_nofile = Some ''/home/site/data/uploads/tok2.png''"
    by (simp add: ex_row_nofile_def)
  have h4: "''/home/site/data/uploads/tok2.png'' \<notin> dom (files ex_state)"
    by (simp add: ex_state_def)
  from h3 h4 have h5: "image_path ex_row_nofile = None \<or>
      (\<exists>p. image_path ex_row_nofile = Some p \<and> p \<notin> dom (files ex_state))"
    by blast
  show ?thesis
    using image_without_file_404 [OF h1 h2 h5] h1 h2 h3 h4 by blast
qed

subsection \<open>The page\<close>

text \<open>
  C8. For a stored, unexpired row the view endpoint answers 200 with the page whose
  image source is the row's image URL when one is recorded (a value that is not the
  empty string), and \<^verbatim>\<open>/image/{token}\<close> otherwise. The source stands between
  \<^verbatim>\<open><img class="hero" src="\<close> and \<^verbatim>\<open>" alt="Image"/>\<close>.
\<close>

theorem view_image_source:
  assumes "fetch_message t s = Some row" and "\<not> now > expires_at row"
  shows \<open>view t now s =
           (HTMLResponse
              (html_head @
               (case image_url row of
                  None \<Rightarrow> ''/image/'' @ t
                | Some u \<Rightarrow> if u = [] then ''/image/'' @ t else u) @
               html_mid @ safe_text_of (text_col row) @ html_tail) 200, s) \<and>
         suffix ''<img class="hero" src="'' html_head \<and>
         prefix ''" alt="Image"/>'' html_mid\<close>
proof -
  have "img_src_of row t =
        (case image_url row of None \<Rightarrow> ''/image/'' @ t
         | Some u \<Rightarrow> if u = [] then ''/image/'' @ t else u)"
    by (cases "image_url row") (simp_all add: img_src_of_def)
  moreover have \<open>suffix ''<img class="hero" src="'' html_head\<close>
    unfolding html_head_def by (rule suffix_appendI) (simp add: suffix_to_prefix)
  moreover have \<open>prefix ''" alt="Image"/>'' html_mid\<close>
    unfolding html_mid_def by simp
  ultimately show ?thesis
    using assms by (simp add: view_live html_page_def)
qed

theorem view_image_source_witness:
  \<open>fetch_message ''tok1'' ex_state = Some ex_row \<and> \<not> 200 > expires_at ex_row \<and>
   image_url ex_row = None \<and>
   fst (view ''tok1'' 200 ex_state) =
     HTMLResponse (html_head @ ''/image/tok1'' @ html_mid @
                   safe_text_of (text_col ex_row) @ html_tail) 200 \<and>
   fetch_message ''tok1'' (ex_state\<lparr>messages := [ex_row\<lparr>image_url := Some ''https://img.example/a.png''\<rparr>]\<rparr>)
     = Some (ex_row\<lparr>image_url := Some ''https://img.example/a.png''\<rparr>) \<and>
   fst (view ''tok1'' 200 (ex_state\<lparr>messages := [ex_row\<lparr>image_url := Some ''https://img.example/a.png''\<rparr>]\<rparr>)) =
     HTMLResponse (html_head @ ''https://img.example/a.png'' @ html_mid @
                   safe_text_of (text_col ex_row) @ html_tail) 200\<close>
proof -
  let ?row = "ex_row\<lparr>image_url := Some ''https://img.example/a.png''\<rparr>"
  let ?s = "ex_state\<lparr>messages := [?row]\<rparr>"
  have h1: "fetch_message ''tok1'' ex_state = Some ex_row"
    by (simp add: fetch_message_def ex_state_def ex_row_def)
  have h2: "\<not> 200 > expires_at ex_row"
    by (simp add: ex_row_def)
  have h3: "fetch_message ''tok1'' ?s = Some ?row"
    by (simp add: fetch_message_def ex_row_def)
  have h4: "\<not> 200 > expires_at ?row"
    by (simp add: ex_row_def)
  have u: "image_url ex_row = None" by (simp add: ex_row_def)
  show ?thesis
    using view_image_source [OF h1 h2] view_image_source [OF h3 h4] h1 h2 h3 u
    by simp
qed

text \<open>
  The text of a row in the page. For a stored, unexpired row the page of the view
  endpoint holds the text of the row only in the form \<open>safe_text_of\<close>, between
  \<open>html_mid\<close> and \<open>html_tail\<close>. That form is the text rendered character by character
  with \<open>html_char\<close>: the five markup characters as entities, a newline as a line break.
  So it passes \<open>escaped\<close>, it has no quote of either kind, every \<^verbatim>\<open><\<close> in it opens a
  \<^verbatim>\<open><br/>\<close>, every \<^verbatim>\<open>>\<close> in it closes one, and every \<^verbatim>\<open>&\<close> in it opens one of the
  five entities. This is a statement about the text alone: the image source of the same
  page is \<open>img_src_of row t\<close>, of which it says nothing.
\<close>

theorem view_escapes_text:
  assumes "fetch_message t s = Some row" and "\<not> now > expires_at row"
  shows \<open>fst (view t now s) =
           HTMLResponse (html_head @ img_src_of row t @ html_mid @
                         safe_text_of (text_col row) @ html_tail) 200 \<and>
         safe_text_of (text_col row) = concat (map html_char (text_col row)) \<and>
         escaped (safe_text_of (text_col row)) \<and>
         CHR 0x22 \<notin> set (safe_text_of (text_col row)) \<and>
         CHR 0x27 \<notin> set (safe_text_of (text_col row)) \<and>
         (\<forall>i < length (safe_text_of (text_col row)).
            (safe_text_of (text_col row) ! i = CHR ''<'' \<longrightarrow>
               take 5 (drop i (safe_text_of (text_col row))) = ''<br/>'') \<and>
            (safe_text_of (text_col row) ! i = CHR ''>'' \<longrightarrow>
               4 \<le> i \<and> take 5 (drop (i - 4) (safe_text_of (text_col row))) = ''<br/>'') \<and>
            (safe_text_of (text_col row) ! i = CHR ''&'' \<longrightarrow>
               (\<exists>e \<in> {''&amp;'', ''&lt;'', ''&gt;'', ''&quot;'', ''&#x27;''}.
                  prefix e (drop i (safe_text_of (text_col row))))))\<close>
proof -
  let ?safe = "safe_text_of (text_col row)"
  have page: "fst (view t now s) =
      HTMLResponse (html_head @ img_src_of row t @ html_mid @ ?safe @ html_tail) 200"
    using assms by (simp add: view_live html_page_def)
  have chars: "?safe = concat (map html_char (text_col row))"
    by (rule safe_text_of_chars)
  have esc: "escaped ?safe"
    by (rule escaped_safe_text)
  have quotes: "CHR 0x22 \<notin> set ?safe \<and> CHR 0x27 \<notin> set ?safe"
    using esc by (rule escaped_quote)
  have pos: "\<forall>i < length ?safe.
      (?safe ! i = CHR ''<'' \<longrightarrow> take 5 (drop i ?safe) = ''<br/>'') \<and>
      (?safe ! i = CHR ''>'' \<longrightarrow> 4 \<le> i \<and> take 5 (drop (i - 4) ?safe) = ''<br/>'') \<and>
      (?safe ! i = CHR ''&'' \<longrightarrow>
         (\<exists>e \<in> {''&amp;'', ''&lt;'', ''&gt;'', ''&quot;'', ''&#x27;''}. prefix e (drop i ?safe)))"
    unfolding chars
    using lt_in_safe_text gt_in_safe_text amp_in_safe_text by blast
  from page chars esc quotes pos show ?thesis by blast
qed

theorem view_escapes_text_witness:
  \<open>fetch_message ''tok1'' ex_state = Some ex_row \<and> \<not> 200 > expires_at ex_row \<and>
   text_col ex_row = ''<b>Hi</b> & bye'' \<and>
   safe_text_of (text_col ex_row) = ''&lt;b&gt;Hi&lt;/b&gt; &amp; bye'' \<and>
   escaped (safe_text_of (text_col ex_row)) \<and>
   fst (view ''tok1'' 200 ex_state) =
     HTMLResponse (html_head @ img_src_of ex_row ''tok1'' @ html_mid @
                   ''&lt;b&gt;Hi&lt;/b&gt; &amp; bye'' @ html_tail) 200\<close>
proof -
  have h1: "fetch_message ''tok1'' ex_state = Some ex_row"
    by (simp add: fetch_message_def ex_state_def ex_row_def)
  have h2: "\<not> 200 > expires_at ex_row"
    by (simp add: ex_row_def)
  have t: "text_col ex_row = ''<b>Hi</b> & bye''"
    by (simp add: ex_row_def)
  have e: "concat (map html_char ''<b>Hi</b> & bye'') = ''&lt;b&gt;Hi&lt;/b&gt; &amp; bye''"
    by (simp add: html_char_def)
  from view_escapes_text [OF h1 h2]
  have "fst (view ''tok1'' 200 ex_state) =
          HTMLResponse (html_head @ img_src_of ex_row ''tok1'' @ html_mid @
                        safe_text_of (text_col ex_row) @ html_tail) 200"
    and "safe_text_of (text_col ex_row) = concat (map html_char (text_col ex_row))"
    and "escaped (safe_text_of (text_col ex_row))"
    by blast+
  with h1 h2 t e show ?thesis by simp
qed

text \<open>
  C3. The claim is that the page of the view endpoint carries what the sender stored only
  in escaped form, so that no injected markup executes. The handler escapes the text of
  the row and nothing else: the image URL of the row goes into the \<^verbatim>\<open>src\<close> attribute
  as it was stored. The send endpoint accepts the image URL
  \<^verbatim>\<open>"><script>alert(1)</script><img src="\<close> and stores it; the page of the record then
  holds that string, which is not escaped text, right after
  \<^verbatim>\<open><img class="hero" src="\<close> and before \<^verbatim>\<open>" alt="Image"/>\<close>: the attribute and the tag
  are closed and a script element follows.
\<close>

theorem view_image_url_unescaped:
  \<open>fst ex_send_markup =
     SendResult ''sent'' ''https://links.example/view/AAAAAAAAAAAAAAAAAAAAAAAAAAAAAAAA'' 3700 \<and>
   map image_url (messages (snd ex_send_markup)) =
     [Some ''"><script>alert(1)</script><img src="''] \<and>
   view ''AAAAAAAAAAAAAAAAAAAAAAAAAAAAAAAA'' 200 (snd ex_send_markup) =
     (HTMLResponse
        (html_head @ ''"><script>alert(1)</script><img src="'' @ html_mid @
         safe_text_of ''hello'' @ html_tail) 200,
      snd ex_send_markup) \<and>
   suffix ''<img class="hero" src="'' html_head \<and>
   prefix ''" alt="Image"/>'' html_mid \<and>
   \<not> escaped ''"><script>alert(1)</script><img src="''\<close>
proof -
  let ?url = \<open>''"><script>alert(1)</script><img src="''\<close>
  let ?row = "\<lparr>token = ex_token, recipient = ''reader@mail.example'',
               subject = ''Your secure link'', text_col = ''hello'', image_path = None,
               image_url = Some ?url, expires_at = 3700, created_at = 100\<rparr>"
  have a: "None \<noteq> (None :: upload option) \<or> truthy (Some ?url)"
    by simp
  have resp: "fst ex_send_markup =
      SendResult ''sent'' ''https://links.example/view/AAAAAAAAAAAAAAAAAAAAAAAAAAAAAAAA'' 3700"
    unfolding ex_send_markup_def send_link_response [OF a ex_fresh]
    by (simp add: ex_token_eq ex_token_def ex_cfg_def)
  have rows: "messages (snd ex_send_markup) = [?row]"
    unfolding ex_send_markup_def send_link_messages [OF a ex_fresh]
    by (simp add: ex_token_eq init_db_def)
  have row: "fetch_message ex_token (snd ex_send_markup) = Some ?row"
    by (simp add: fetch_message_def rows)
  have live: "\<not> 200 > expires_at ?row"
    by simp
  have src: "img_src_of ?row ex_token = ?url"
    by (simp add: img_src_of_def)
  have page: "view ex_token 200 (snd ex_send_markup) =
      (HTMLResponse (html_head @ ?url @ html_mid @ safe_text_of ''hello'' @ html_tail) 200,
       snd ex_send_markup)"
    unfolding view_live [OF row live] src by (simp add: html_page_def)
  have before: \<open>suffix ''<img class="hero" src="'' html_head\<close>
    unfolding html_head_def by (rule suffix_appendI) (simp add: suffix_to_prefix)
  have after: \<open>prefix ''" alt="Image"/>'' html_mid\<close>
    unfolding html_mid_def by simp
  have raw: "\<not> escaped ?url"
    by (subst escaped.simps)
       (simp add: strip_token_def safe_tokens_def markup_chars_def)
  from resp rows page before after raw show ?thesis
    by (simp add: ex_token_def)
qed


subsection \<open>The send endpoint\<close>

text \<open>
  C5. A send request with no uploaded file and no image URL (the field absent or empty)
  is answered with 400, and the state is the one before the request: no row, no file
  and no mail is added.
\<close>

theorem send_without_image_rejected:
  assumes "img = None" and "img_url = None \<or> img_url = Some []"
  shows "send_link cfg entropy now provider_ok to_addr body ttl subj img img_url s =
           (HTTPException 400 ''Provide image upload or image_url'', s)"
  using assms by (auto simp: send_link_def)

theorem send_without_image_rejected_witness:
  "send_link ex_cfg ex_entropy 100 True ''reader@mail.example'' ''hello'' 3600
     ''Your secure link'' None None ex_state =
     (HTTPException 400 ''Provide image upload or image_url'', ex_state) \<and>
   send_link ex_cfg ex_entropy 100 True ''reader@mail.example'' ''hello'' 3600
     ''Your secure link'' None (Some []) ex_state =
     (HTTPException 400 ''Provide image upload or image_url'', ex_state)"
proof -
  have h: "(None :: upload option) = None" by simp
  have u1: "(None :: string option) = None \<or> (None :: string option) = Some []" by simp
  have u2: "Some [] = (None :: string option) \<or> Some [] = Some ([] :: string)" by simp
  show ?thesis
    using send_without_image_rejected [OF h u1] send_without_image_rejected [OF h u2]
    by blast
qed

text \<open>
  C9. When a send request with an image source and a token not yet stored reaches the
  notifier and the notifier raises (the mail settings are missing, or the provider
  fails), the request fails with an unhandled exception, status 500. The row is in the
  table all the same, the uploaded file is on disk, and no mail left. Until the row
  expires the view endpoint answers 200 for the token and the image endpoint serves the
  uploaded file, both without changing the state.
\<close>

theorem failed_mail_keeps_record:
  assumes accepted: "img \<noteq> None \<or> truthy img_url"
    and fresh: "token_urlsafe entropy \<notin> token ` set (messages s)"
    and fails: "\<not> truthy (ACS_EMAIL_CONNECTION_STRING cfg) \<or> \<not> truthy (FROM_EMAIL cfg) \<or>
                \<not> provider_ok"
  shows "status_code (fst (send_link cfg entropy now provider_ok to_addr body ttl subj img
                             img_url s)) = 500 \<and>
         (\<exists>e. fst (send_link cfg entropy now provider_ok to_addr body ttl subj img img_url s)
                = Unhandled e \<and> e \<noteq> IntegrityError) \<and>
         (\<exists>row. fetch_message (token_urlsafe entropy)
                   (snd (send_link cfg entropy now provider_ok to_addr body ttl subj img
                           img_url s)) = Some row \<and>
                 text_col row = body \<and> image_url row = img_url \<and>
                 expires_at row = now + of_int ttl) \<and>
         (\<forall>f. img = Some f \<longrightarrow>
            files (snd (send_link cfg entropy now provider_ok to_addr body ttl subj img
                          img_url s))
              (join (UPLOAD_DIR cfg) (token_urlsafe entropy @ file_ext f)) = Some (content f)) \<and>
         outbox (snd (send_link cfg entropy now provider_ok to_addr body ttl subj img
                        img_url s)) = outbox s \<and>
         (\<forall>t. t \<le> now + of_int ttl \<longrightarrow>
            status_code (fst (view (token_urlsafe entropy) t
              (snd (send_link cfg entropy now provider_ok to_addr body ttl subj img
                      img_url s)))) = 200 \<and>
            snd (view (token_urlsafe entropy) t
              (snd (send_link cfg entropy now provider_ok to_addr body ttl subj img
                      img_url s))) =
              snd (send_link cfg entropy now provider_ok to_addr body ttl subj img img_url s) \<and>
            (\<forall>f. img = Some f \<longrightarrow>
               get_image (token_urlsafe entropy) t
                 (snd (send_link cfg entropy now provider_ok to_addr body ttl subj img
                         img_url s)) =
               (FileResponse (join (UPLOAD_DIR cfg) (token_urlsafe entropy @ file_ext f)),
                snd (send_link cfg entropy now provider_ok to_addr body ttl subj img
                       img_url s))))"
proof -
  let ?r = "send_link cfg entropy now provider_ok to_addr body ttl subj img img_url s"
  let ?tok = "token_urlsafe entropy"
  let ?row = "\<lparr>token = ?tok, recipient = to_addr, subject = subj, text_col = body,
               image_path = map_option (\<lambda>f. join (UPLOAD_DIR cfg) (?tok @ file_ext f)) img,
               image_url = img_url, expires_at = now + of_int ttl, created_at = now\<rparr>"
  have resp: "\<exists>e. fst ?r = Unhandled e \<and> e \<noteq> IntegrityError"
    using fails by (auto simp: send_link_response [OF accepted fresh])
  then have code: "status_code (fst ?r) = 500" by auto
  have row: "fetch_message ?tok (snd ?r) = Some ?row"
    by (rule send_link_fetch [OF accepted fresh])
  have stored: "\<forall>f. img = Some f \<longrightarrow>
      files (snd ?r) (join (UPLOAD_DIR cfg) (?tok @ file_ext f)) = Some (content f)"
    by (simp add: send_link_files)
  have mail: "outbox (snd ?r) = outbox s"
    using accepted fresh fails
    by (auto simp: send_link_def insert_message_def send_email_acs_def Let_def
          split: option.splits)
  have live: "status_code (fst (view ?tok t (snd ?r))) = 200 \<and> snd (view ?tok t (snd ?r)) = snd ?r \<and>
      (\<forall>f. img = Some f \<longrightarrow>
         get_image ?tok t (snd ?r) =
           (FileResponse (join (UPLOAD_DIR cfg) (?tok @ file_ext f)), snd ?r))"
    if "t \<le> now + of_int ttl" for t
  proof -
    from that have ne: "\<not> t > expires_at ?row" by simp
    have v: "status_code (fst (view ?tok t (snd ?r))) = 200 \<and> snd (view ?tok t (snd ?r)) = snd ?r"
      by (simp add: view_live [OF row ne])
    have g: "get_image ?tok t (snd ?r) =
               (FileResponse (join (UPLOAD_DIR cfg) (?tok @ file_ext f)), snd ?r)"
      if "img = Some f" for f
    proof -
      let ?p = "join (UPLOAD_DIR cfg) (?tok @ file_ext f)"
      from that stored have on_disk: "files (snd ?r) ?p = Some (content f)" by blast
      from that have path: "image_path ?row = Some ?p" by simp
      have "truthy (image_path ?row) \<and> the (image_path ?row) \<in> dom (files (snd ?r))"
        unfolding path using on_disk by (simp add: upload_path_nonempty domIff)
      then show ?thesis
        unfolding get_image_live [OF row ne] path by simp
    qed
    from v g show ?thesis by blast
  qed
  have "\<exists>row. fetch_message ?tok (snd ?r) = Some row \<and> text_col row = body \<and>
          image_url row = img_url \<and> expires_at row = now + of_int ttl"
    using row by simp
  with code resp stored mail live show ?thesis by blast
qed

theorem failed_mail_keeps_record_witness:
  "Some ex_upload \<noteq> None \<and>
   token_urlsafe ex_entropy \<notin> token ` set (messages init_db) \<and>
   \<not> truthy (ACS_EMAIL_CONNECTION_STRING ex_cfg_nomail) \<and>
   status_code (fst ex_send_nomail) = 500 \<and>
   outbox (snd ex_send_nomail) = [] \<and>
   (200::real) \<le> 100 + of_int 3600 \<and>
   status_code (fst (view (token_urlsafe ex_entropy) 200 (snd ex_send_nomail))) = 200 \<and>
   get_image (token_urlsafe ex_entropy) 200 (snd ex_send_nomail) =
     (FileResponse (join (UPLOAD_DIR ex_cfg_nomail) (token_urlsafe ex_entropy @ file_ext ex_upload)),
      snd ex_send_nomail)"
proof -
  have h1: "Some ex_upload \<noteq> None \<or> truthy None" by simp
  have h3: "\<not> truthy (ACS_EMAIL_CONNECTION_STRING ex_cfg_nomail) \<or>
            \<not> truthy (FROM_EMAIL ex_cfg_nomail) \<or> \<not> True"
    by (simp add: ex_cfg_nomail_def)
  have h4: "(200::real) \<le> 100 + of_int 3600" by simp
  have o: "outbox init_db = []" by (simp add: init_db_def)
  have n: "\<not> truthy (ACS_EMAIL_CONNECTION_STRING ex_cfg_nomail)"
    by (simp add: ex_cfg_nomail_def)
  from failed_mail_keeps_record [OF h1 ex_fresh h3, of 100 "''reader@mail.example''" "''hello''"
      3600 "''Your secure link''", folded ex_send_nomail_def] h4 o
  have "status_code (fst ex_send_nomail) = 500"
    and "outbox (snd ex_send_nomail) = []"
    and "status_code (fst (view (token_urlsafe ex_entropy) 200 (snd ex_send_nomail))) = 200"
    and "get_image (token_urlsafe ex_entropy) 200 (snd ex_send_nomail) =
     (FileResponse (join (UPLOAD_DIR ex_cfg_nomail) (token_urlsafe ex_entropy @ file_ext ex_upload)),
      snd ex_send_nomail)"
    by simp_all
  with ex_fresh n h4 show ?thesis by simp
qed


subsection \<open>Files on disk\<close>

text \<open>
  C10. No endpoint removes a file: the view and the image endpoint leave the files as
  they are, and the send endpoint only adds one. When an access finds the row expired,
  the state it leaves differs from the one before in the table alone: the row is gone,
  a file stored under the row's image path is still on disk, and from then on the view
  and the image endpoint answer 404 for the token.
\<close>

theorem expiry_keeps_file:
  "files (snd (view t now s)) = files s \<and>
   files (snd (get_image t now s)) = files s \<and>
   dom (files s) \<subseteq>
     dom (files (snd (send_link cfg entropy now provider_ok to_addr body ttl subj img img_url s))) \<and>
   (\<forall>row. fetch_message t s = Some row \<and> now > expires_at row \<longrightarrow>
      (\<forall>s' \<in> {snd (view t now s), snd (get_image t now s)}.
         messages s' = filter (\<lambda>r. token r \<noteq> t) (messages s) \<and>
         files s' = files s \<and>
         (\<forall>p. image_path row = Some p \<and> p \<in> dom (files s) \<longrightarrow> p \<in> dom (files s')) \<and>
         (\<forall>later. view t later s' = (HTTPException 404 ''Invalid link'', s') \<and>
                  get_image t later s' = (HTTPException 404 ''Not found'', s'))))"
proof -
  have gone: "messages s' = filter (\<lambda>r. token r \<noteq> t) (messages s) \<and>
      files s' = files s \<and>
      (\<forall>p. image_path row = Some p \<and> p \<in> dom (files s) \<longrightarrow> p \<in> dom (files s')) \<and>
      (\<forall>later. view t later s' = (HTTPException 404 ''Invalid link'', s') \<and>
               get_image t later s' = (HTTPException 404 ''Not found'', s'))"
    if row: "fetch_message t s = Some row" and late: "now > expires_at row"
      and s': "s' \<in> {snd (view t now s), snd (get_image t now s)}" for row s'
  proof -
    from s' have eq: "s' = delete_message t s"
      by (auto simp: view_expired [OF row late] get_image_expired [OF row late])
    have none: "fetch_message t s' = None"
      unfolding eq by (rule fetch_delete_same)
    have "messages s' = filter (\<lambda>r. token r \<noteq> t) (messages s)"
      unfolding eq by (simp add: delete_message_def)
    moreover have "files s' = files s"
      unfolding eq by simp
    moreover have "\<forall>later. view t later s' = (HTTPException 404 ''Invalid link'', s') \<and>
        get_image t later s' = (HTTPException 404 ''Not found'', s')"
      by (intro allI conjI view_missing [OF none] get_image_missing [OF none])
    ultimately show ?thesis by simp
  qed
  have expired: "\<forall>row. fetch_message t s = Some row \<and> now > expires_at row \<longrightarrow>
      (\<forall>s' \<in> {snd (view t now s), snd (get_image t now s)}.
         messages s' = filter (\<lambda>r. token r \<noteq> t) (messages s) \<and>
         files s' = files s \<and>
         (\<forall>p. image_path row = Some p \<and> p \<in> dom (files s) \<longrightarrow> p \<in> dom (files s')) \<and>
         (\<forall>later. view t later s' = (HTTPException 404 ''Invalid link'', s') \<and>
                  get_image t later s' = (HTTPException 404 ''Not found'', s')))"
    using gone by (intro allI impI ballI) (elim conjE)
  show ?thesis
    by (intro conjI view_files get_image_files send_link_dom_files expired)
qed

theorem expiry_keeps_file_witness:
  "fetch_message ''tok1'' ex_state = Some ex_row \<and> 5000 > expires_at ex_row \<and>
   image_path ex_row = Some ''/home/site/data/uploads/tok1.png'' \<and>
   ''/home/site/data/uploads/tok1.png'' \<in> dom (files ex_state) \<and>
   ''/home/site/data/uploads/tok1.png'' \<in> dom (files (snd (view ''tok1'' 5000 ex_state))) \<and>
   ''/home/site/data/uploads/tok1.png'' \<in> dom (files (snd (get_image ''tok1'' 5000 ex_state))) \<and>
   status_code (fst (view ''tok1'' 6000 (snd (view ''tok1'' 5000 ex_state)))) = 404 \<and>
   status_code (fst (get_image ''tok1'' 6000 (snd (view ''tok1'' 5000 ex_state)))) = 404 \<and>
   status_code (fst (view ''tok1'' 6000 (snd (get_image ''tok1'' 5000 ex_state)))) = 404 \<and>
   status_code (fst (get_image ''tok1'' 6000 (snd (get_image ''tok1'' 5000 ex_state)))) = 404"
proof -
  have h1: "fetch_message ''tok1'' ex_state = Some ex_row"
    by (simp add: fetch_message_def ex_state_def ex_row_def)
  have h2: "5000 > expires_at ex_row"
    by (simp add: ex_row_def)
  have h3: "image_path ex_row = Some ''/home/site/data/uploads/tok1.png''"
    by (simp add: ex_row_def)
  have h4: "''/home/site/data/uploads/tok1.png'' \<in> dom (files ex_state)"
    by (simp add: ex_state_def)
  note e = expiry_keeps_file [of "''tok1''" 5000 ex_state]
  from e h1 h2 have a:
    "\<forall>s' \<in> {snd (view ''tok1'' 5000 ex_state), snd (get_image ''tok1'' 5000 ex_state)}.
       (\<forall>p. image_path ex_row = Some p \<and> p \<in> dom (files ex_state) \<longrightarrow> p \<in> dom (files s')) \<and>
       (\<forall>later. view ''tok1'' later s' = (HTTPException 404 ''Invalid link'', s') \<and>
                get_image ''tok1'' later s' = (HTTPException 404 ''Not found'', s'))"
    by blast
  from a h3 h4 have
    "''/home/site/data/uploads/tok1.png'' \<in> dom (files (snd (view ''tok1'' 5000 ex_state)))"
    "''/home/site/data/uploads/tok1.png'' \<in> dom (files (snd (get_image ''tok1'' 5000 ex_state)))"
    by blast+
  moreover from a have
    "view ''tok1'' 6000 (snd (view ''tok1'' 5000 ex_state)) =
       (HTTPException 404 ''Invalid link'', snd (view ''tok1'' 5000 ex_state))"
    "get_image ''tok1'' 6000 (snd (view ''tok1'' 5000 ex_state)) =
       (HTTPException 404 ''Not found'', snd (view ''tok1'' 5000 ex_state))"
    "view ''tok1'' 6000 (snd (get_image ''tok1'' 5000 ex_state)) =
       (HTTPException 404 ''Invalid link'', snd (get_image ''tok1'' 5000 ex_state))"
    "get_image ''tok1'' 6000 (snd (get_image ''tok1'' 5000 ex_state)) =
       (HTTPException 404 ''Not found'', snd (get_image ''tok1'' 5000 ex_state))"
    by blast+
  ultimately show ?thesis
    using h1 h2 h3 h4 by simp
qed


subsection \<open>The lifetime of a record\<close>

text \<open>
  C1, as the code has it. A send request with an image source and a token not yet stored
  leaves a row for the token, expiring at the time of the request plus the time-to-live.
  On every access not later than that, the view endpoint answers 200 with the page of
  the row, and the image endpoint serves the uploaded file when the request had one and
  answers 404 (no stored image) when it had only an image URL; neither changes the
  state. On an access later than that, the view endpoint answers 410 and the image
  endpoint answers 410, the row is deleted, and from then on both answer 404.
\<close>

theorem record_lifetime:
  assumes accepted: "img \<noteq> None \<or> truthy img_url"
    and fresh: "token_urlsafe entropy \<notin> token ` set (messages s)"
  shows "(\<forall>t. t \<le> now + of_int ttl \<longrightarrow>
            view (token_urlsafe entropy) t
              (snd (send_link cfg entropy now provider_ok to_addr body ttl subj img img_url s)) =
              (HTMLResponse
                 (html_page
                    (case img_url of
                       None \<Rightarrow> ''/image/'' @ token_urlsafe entropy
                     | Some u \<Rightarrow> if u = [] then ''/image/'' @ token_urlsafe entropy else u)
                    (safe_text_of body)) 200,
               snd (send_link cfg entropy now provider_ok to_addr body ttl subj img img_url s)) \<and>
            get_image (token_urlsafe entropy) t
              (snd (send_link cfg entropy now provider_ok to_addr body ttl subj img img_url s)) =
              (case img of
                 None \<Rightarrow> HTTPException 404 ''No stored image''
               | Some f \<Rightarrow>
                   FileResponse (join (UPLOAD_DIR cfg) (token_urlsafe entropy @ file_ext f)),
               snd (send_link cfg entropy now provider_ok to_addr body ttl subj img img_url s))) \<and>
         (\<forall>t. t > now + of_int ttl \<longrightarrow>
            fst (view (token_urlsafe entropy) t
                   (snd (send_link cfg entropy now provider_ok to_addr body ttl subj img
                           img_url s))) = HTMLResponse ''<h2>Link expired</h2>'' 410 \<and>
            fst (get_image (token_urlsafe entropy) t
                   (snd (send_link cfg entropy now provider_ok to_addr body ttl subj img
                           img_url s))) = HTTPException 410 ''Expired'' \<and>
            (\<forall>s' \<in> {snd (view (token_urlsafe entropy) t
                            (snd (send_link cfg entropy now provider_ok to_addr body ttl subj
                                    img img_url s))),
                      snd (get_image (token_urlsafe entropy) t
                            (snd (send_link cfg entropy now provider_ok to_addr body ttl subj
                                    img img_url s)))}.
               fetch_message (token_urlsafe entropy) s' = None \<and>
               (\<forall>later.
                  view (token_urlsafe entropy) later s' = (HTTPException 404 ''Invalid link'', s') \<and>
                  get_image (token_urlsafe entropy) later s' =
                    (HTTPException 404 ''Not found'', s'))))"
proof -
  let ?s1 = "snd (send_link cfg entropy now provider_ok to_addr body ttl subj img img_url s)"
  let ?tok = "token_urlsafe entropy"
  let ?row = "\<lparr>token = ?tok, recipient = to_addr, subject = subj, text_col = body,
               image_path = map_option (\<lambda>f. join (UPLOAD_DIR cfg) (?tok @ file_ext f)) img,
               image_url = img_url, expires_at = now + of_int ttl, created_at = now\<rparr>"
  let ?src = "case img_url of None \<Rightarrow> ''/image/'' @ ?tok
              | Some u \<Rightarrow> if u = [] then ''/image/'' @ ?tok else u"
  have row: "fetch_message ?tok ?s1 = Some ?row"
    by (rule send_link_fetch [OF accepted fresh])
  have src: "img_src_of ?row ?tok = ?src"
    by (cases img_url) (simp_all add: img_src_of_def)
  have live: "view ?tok t ?s1 = (HTMLResponse (html_page ?src (safe_text_of body)) 200, ?s1) \<and>
      get_image ?tok t ?s1 =
        (case img of None \<Rightarrow> HTTPException 404 ''No stored image''
         | Some f \<Rightarrow> FileResponse (join (UPLOAD_DIR cfg) (?tok @ file_ext f)), ?s1)"
    if "t \<le> now + of_int ttl" for t
  proof -
    from that have ne: "\<not> t > expires_at ?row" by simp
    have v: "view ?tok t ?s1 = (HTMLResponse (html_page ?src (safe_text_of body)) 200, ?s1)"
      unfolding view_live [OF row ne] src by simp
    have g: "get_image ?tok t ?s1 =
        (case img of None \<Rightarrow> HTTPException 404 ''No stored image''
         | Some f \<Rightarrow> FileResponse (join (UPLOAD_DIR cfg) (?tok @ file_ext f)), ?s1)"
    proof (cases img)
      case None
      then have "image_path ?row = None" by simp
      then show ?thesis
        unfolding get_image_live [OF row ne] using None by simp
    next
      case (Some f)
      let ?p = "join (UPLOAD_DIR cfg) (?tok @ file_ext f)"
      from Some have path: "image_path ?row = Some ?p" by simp
      have "files ?s1 ?p = Some (content f)"
        unfolding send_link_files using Some by simp
      then have "truthy (image_path ?row) \<and> the (image_path ?row) \<in> dom (files ?s1)"
        unfolding path by (simp add: upload_path_nonempty domIff)
      then show ?thesis
        unfolding get_image_live [OF row ne] path using Some by simp
    qed
    from v g show ?thesis by (rule conjI)
  qed
  have dead: "fst (view ?tok t ?s1) = HTMLResponse ''<h2>Link expired</h2>'' 410 \<and>
      fst (get_image ?tok t ?s1) = HTTPException 410 ''Expired'' \<and>
      (\<forall>s' \<in> {snd (view ?tok t ?s1), snd (get_image ?tok t ?s1)}.
         fetch_message ?tok s' = None \<and>
         (\<forall>later. view ?tok later s' = (HTTPException 404 ''Invalid link'', s') \<and>
                  get_image ?tok later s' = (HTTPException 404 ''Not found'', s')))"
    if "t > now + of_int ttl" for t
  proof -
    from that have late: "t > expires_at ?row" by simp
    have v: "view ?tok t ?s1 = (HTMLResponse ''<h2>Link expired</h2>'' 410, delete_message ?tok ?s1)"
      by (rule view_expired [OF row late])
    have g: "get_image ?tok t ?s1 = (HTTPException 410 ''Expired'', delete_message ?tok ?s1)"
      by (rule get_image_expired [OF row late])
    have none: "fetch_message ?tok (delete_message ?tok ?s1) = None"
      by (rule fetch_delete_same)
    have after: "\<forall>later.
        view ?tok later (delete_message ?tok ?s1) =
          (HTTPException 404 ''Invalid link'', delete_message ?tok ?s1) \<and>
        get_image ?tok later (delete_message ?tok ?s1) =
          (HTTPException 404 ''Not found'', delete_message ?tok ?s1)"
      by (intro allI conjI view_missing [OF none] get_image_missing [OF none])
    show ?thesis
      unfolding v g using none after by simp
  qed
  from live dead show ?thesis by blast
qed

theorem record_lifetime_witness:
  "truthy (Some ''https://img.example/a.png'') \<and>
   token_urlsafe ex_entropy \<notin> token ` set (messages init_db) \<and>
   (200::real) \<le> 100 + of_int 3600 \<and> (5000::real) > 100 + of_int 3600 \<and>
   status_code (fst (view (token_urlsafe ex_entropy) 200 (snd ex_send_url))) = 200 \<and>
   snd (view (token_urlsafe ex_entropy) 200 (snd ex_send_url)) = snd ex_send_url \<and>
   get_image (token_urlsafe ex_entropy) 200 (snd ex_send_both) =
     (FileResponse (join (UPLOAD_DIR ex_cfg) (token_urlsafe ex_entropy @ file_ext ex_upload)),
      snd ex_send_both) \<and>
   status_code (fst (view (token_urlsafe ex_entropy) 5000 (snd ex_send_url))) = 410 \<and>
   status_code (fst (get_image (token_urlsafe ex_entropy) 5000 (snd ex_send_url))) = 410 \<and>
   status_code (fst (view (token_urlsafe ex_entropy) 6000
     (snd (view (token_urlsafe ex_entropy) 5000 (snd ex_send_url))))) = 404 \<and>
   status_code (fst (get_image (token_urlsafe ex_entropy) 6000
     (snd (get_image (token_urlsafe ex_entropy) 5000 (snd ex_send_url))))) = 404"
proof -
  have a1: "None \<noteq> (None :: upload option) \<or> truthy (Some ''https://img.example/a.png'')"
    by simp
  have a2: "Some ex_upload \<noteq> None \<or> truthy (Some ''https://img.example/a.png'')"
    by simp
  have t1: "(200::real) \<le> 100 + of_int 3600" by simp
  have t2: "(5000::real) > 100 + of_int 3600" by simp
  note u = record_lifetime [OF a1 ex_fresh, of 100 3600 ex_cfg True "''reader@mail.example''"
      "''hello''" "''Your secure link''", folded ex_send_url_def]
  note b = record_lifetime [OF a2 ex_fresh, of 100 3600 ex_cfg True "''reader@mail.example''"
      "''hello''" "''Your secure link''", folded ex_send_both_def]
  from u t1 have v: "status_code (fst (view (token_urlsafe ex_entropy) 200 (snd ex_send_url))) = 200 \<and>
      snd (view (token_urlsafe ex_entropy) 200 (snd ex_send_url)) = snd ex_send_url"
    by simp
  from b t1 have g: "get_image (token_urlsafe ex_entropy) 200 (snd ex_send_both) =
     (FileResponse (join (UPLOAD_DIR ex_cfg) (token_urlsafe ex_entropy @ file_ext ex_upload)),
      snd ex_send_both)"
    by simp
  from u t2 have d:
    "fst (view (token_urlsafe ex_entropy) 5000 (snd ex_send_url)) =
       HTMLResponse ''<h2>Link expired</h2>'' 410"
    "fst (get_image (token_urlsafe ex_entropy) 5000 (snd ex_send_url)) =
       HTTPException 410 ''Expired''"
    by blast+
  from u t2 have e:
    "\<forall>s' \<in> {snd (view (token_urlsafe ex_entropy) 5000 (snd ex_send_url)),
              snd (get_image (token_urlsafe ex_entropy) 5000 (snd ex_send_url))}.
       \<forall>later.
         view (token_urlsafe ex_entropy) later s' = (HTTPException 404 ''Invalid link'', s') \<and>
         get_image (token_urlsafe ex_entropy) later s' = (HTTPException 404 ''Not found'', s')"
    by blast
  from e have f:
    "view (token_urlsafe ex_entropy) 6000
       (snd (view (token_urlsafe ex_entropy) 5000 (snd ex_send_url))) =
       (HTTPException 404 ''Invalid link'',
        snd (view (token_urlsafe ex_entropy) 5000 (snd ex_send_url)))"
    "get_image (token_urlsafe ex_entropy) 6000
       (snd (get_image (token_urlsafe ex_entropy) 5000 (snd ex_send_url))) =
       (HTTPException 404 ''Not found'',
        snd (get_image (token_urlsafe ex_entropy) 5000 (snd ex_send_url)))"
    by blast+
  from v g d f t1 t2 ex_fresh show ?thesis by simp
qed

text \<open>
  C1 as stated fails for the image endpoint: a record sent with an image URL alone exists
  and has not expired at time 200, and the image endpoint answers 404 for its token.
\<close>

theorem image_before_expiry_counterexample:
  "fst ex_send_url =
     SendResult ''sent'' ''https://links.example/view/AAAAAAAAAAAAAAAAAAAAAAAAAAAAAAAA'' 3700 \<and>
   map token (messages (snd ex_send_url)) = [''AAAAAAAAAAAAAAAAAAAAAAAAAAAAAAAA''] \<and>
   map expires_at (messages (snd ex_send_url)) = [100 + 3600] \<and>
   (200::real) < 100 + 3600 \<and>
   get_image ''AAAAAAAAAAAAAAAAAAAAAAAAAAAAAAAA'' 200 (snd ex_send_url) =
     (HTTPException 404 ''No stored image'', snd ex_send_url)"
proof -
  have g: "get_image ''AAAAAAAAAAAAAAAAAAAAAAAAAAAAAAAA'' 200 (snd ex_send_url) =
     (HTTPException 404 ''No stored image'', snd ex_send_url)"
    by (simp add: get_image_def fetch_message_def ex_send_url_row ex_token_def)
  show ?thesis
    by (simp add: ex_send_url_response ex_send_url_row ex_token_def g)
qed

subsection \<open>The two image sources\<close>

text \<open>
  C4, as the code has it. A send request with neither an uploaded file nor an image URL is
  rejected with 400 and changes nothing. A request with at least one of them and a token
  not yet stored leaves a row that records whatever was supplied: the path of the
  uploaded file, written to disk, when there is an upload, and the image URL when there
  is one, also when both are supplied. Without an upload no file is written. The page of
  the view endpoint then uses one source: the image URL when it is not empty, otherwise
  \<^verbatim>\<open>/image/{token}\<close>.
\<close>

theorem image_sources_used:
  "(img = None \<and> \<not> truthy img_url \<longrightarrow>
      send_link cfg entropy now provider_ok to_addr body ttl subj img img_url s =
        (HTTPException 400 ''Provide image upload or image_url'', s)) \<and>
   ((img \<noteq> None \<or> truthy img_url) \<and> token_urlsafe entropy \<notin> token ` set (messages s) \<longrightarrow>
      (\<exists>row.
         fetch_message (token_urlsafe entropy)
           (snd (send_link cfg entropy now provider_ok to_addr body ttl subj img img_url s)) =
           Some row \<and>
         image_url row = img_url \<and>
         image_path row =
           map_option (\<lambda>f. join (UPLOAD_DIR cfg) (token_urlsafe entropy @ file_ext f)) img) \<and>
      (\<forall>f. img = Some f \<longrightarrow>
         files (snd (send_link cfg entropy now provider_ok to_addr body ttl subj img img_url s))
           (join (UPLOAD_DIR cfg) (token_urlsafe entropy @ file_ext f)) = Some (content f)) \<and>
      (img = None \<longrightarrow>
         files (snd (send_link cfg entropy now provider_ok to_addr body ttl subj img img_url s))
           = files s) \<and>
      (\<forall>t. t \<le> now + of_int ttl \<longrightarrow>
         fst (view (token_urlsafe entropy) t
                (snd (send_link cfg entropy now provider_ok to_addr body ttl subj img img_url s))) =
           HTMLResponse
             (html_head @
              (case img_url of
                 None \<Rightarrow> ''/image/'' @ token_urlsafe entropy
               | Some u \<Rightarrow> if u = [] then ''/image/'' @ token_urlsafe entropy else u) @
              html_mid @ safe_text_of body @ html_tail) 200))"
proof -
  let ?s1 = "snd (send_link cfg entropy now provider_ok to_addr body ttl subj img img_url s)"
  let ?tok = "token_urlsafe entropy"
  let ?row = "\<lparr>token = ?tok, recipient = to_addr, subject = subj, text_col = body,
               image_path = map_option (\<lambda>f. join (UPLOAD_DIR cfg) (?tok @ file_ext f)) img,
               image_url = img_url, expires_at = now + of_int ttl, created_at = now\<rparr>"
  let ?src = "case img_url of None \<Rightarrow> ''/image/'' @ ?tok
              | Some u \<Rightarrow> if u = [] then ''/image/'' @ ?tok else u"
  have rejected: "img = None \<and> \<not> truthy img_url \<longrightarrow>
      send_link cfg entropy now provider_ok to_addr body ttl subj img img_url s =
        (HTTPException 400 ''Provide image upload or image_url'', s)"
    by (simp add: send_link_reject)
  have stored: "(\<exists>row. fetch_message ?tok ?s1 = Some row \<and> image_url row = img_url \<and>
         image_path row = map_option (\<lambda>f. join (UPLOAD_DIR cfg) (?tok @ file_ext f)) img) \<and>
      (\<forall>f. img = Some f \<longrightarrow>
         files ?s1 (join (UPLOAD_DIR cfg) (?tok @ file_ext f)) = Some (content f)) \<and>
      (img = None \<longrightarrow> files ?s1 = files s) \<and>
      (\<forall>t. t \<le> now + of_int ttl \<longrightarrow>
         fst (view ?tok t ?s1) =
           HTMLResponse (html_head @ ?src @ html_mid @ safe_text_of body @ html_tail) 200)"
    if accepted: "img \<noteq> None \<or> truthy img_url"
      and fresh: "?tok \<notin> token ` set (messages s)"
  proof -
    have row: "fetch_message ?tok ?s1 = Some ?row"
      by (rule send_link_fetch [OF accepted fresh])
    then have r: "\<exists>row. fetch_message ?tok ?s1 = Some row \<and> image_url row = img_url \<and>
         image_path row = map_option (\<lambda>f. join (UPLOAD_DIR cfg) (?tok @ file_ext f)) img"
      by simp
    have f1: "\<forall>f. img = Some f \<longrightarrow>
         files ?s1 (join (UPLOAD_DIR cfg) (?tok @ file_ext f)) = Some (content f)"
      by (simp add: send_link_files)
    have f2: "img = None \<longrightarrow> files ?s1 = files s"
      by (simp add: send_link_files)
    have src: "img_src_of ?row ?tok = ?src"
      by (cases img_url) (simp_all add: img_src_of_def)
    have v: "fst (view ?tok t ?s1) =
           HTMLResponse (html_head @ ?src @ html_mid @ safe_text_of body @ html_tail) 200"
      if "t \<le> now + of_int ttl" for t
    proof -
      from that have ne: "\<not> t > expires_at ?row" by simp
      show ?thesis
        unfolding view_live [OF row ne] src by (simp add: html_page_def)
    qed
    from r f1 f2 v show ?thesis by blast
  qed
  from rejected stored show ?thesis by blast
qed

theorem image_sources_used_witness:
  "Some ex_upload \<noteq> None \<and>
   token_urlsafe ex_entropy \<notin> token ` set (messages init_db) \<and>
   (200::real) \<le> 100 + of_int 3600 \<and>
   files (snd ex_send_both) (join (UPLOAD_DIR ex_cfg) (token_urlsafe ex_entropy @ file_ext ex_upload))
     = Some (content ex_upload) \<and>
   fst (view (token_urlsafe ex_entropy) 200 (snd ex_send_both)) =
     HTMLResponse (html_head @ ''https://img.example/a.png'' @ html_mid @
                   safe_text_of ''hello'' @ html_tail) 200 \<and>
   send_link ex_cfg ex_entropy 100 True ''reader@mail.example'' ''hello'' 3600
     ''Your secure link'' None None init_db =
     (HTTPException 400 ''Provide image upload or image_url'', init_db)"
proof -
  have a: "Some ex_upload \<noteq> None \<or> truthy (Some ''https://img.example/a.png'')"
    by simp
  have t1: "(200::real) \<le> 100 + of_int 3600" by simp
  note b = image_sources_used [of "Some ex_upload" "Some ''https://img.example/a.png''"
      ex_cfg ex_entropy 100 True "''reader@mail.example''" "''hello''" 3600
      "''Your secure link''" init_db, folded ex_send_both_def]
  note n = image_sources_used [of None None
      ex_cfg ex_entropy 100 True "''reader@mail.example''" "''hello''" 3600
      "''Your secure link''" init_db]
  from b a ex_fresh have
    "files (snd ex_send_both) (join (UPLOAD_DIR ex_cfg) (token_urlsafe ex_entropy @ file_ext ex_upload))
       = Some (content ex_upload)"
    by blast
  moreover from b a ex_fresh t1 have
    "fst (view (token_urlsafe ex_entropy) 200 (snd ex_send_both)) =
     HTMLResponse (html_head @ ''https://img.example/a.png'' @ html_mid @
                   safe_text_of ''hello'' @ html_tail) 200"
    by simp
  moreover from n have
    "send_link ex_cfg ex_entropy 100 True ''reader@mail.example'' ''hello'' 3600
       ''Your secure link'' None None init_db =
       (HTTPException 400 ''Provide image upload or image_url'', init_db)"
    by simp
  ultimately show ?thesis using ex_fresh t1 by simp
qed

text \<open>
  C4 as stated fails: a request with both an upload and an image URL succeeds, writes the
  file and records the URL in the same row.
\<close>

theorem both_sources_stored_counterexample:
  "fst ex_send_both =
     SendResult ''sent'' ''https://links.example/view/AAAAAAAAAAAAAAAAAAAAAAAAAAAAAAAA'' 3700 \<and>
   files (snd ex_send_both) ''/home/site/data/uploads/AAAAAAAAAAAAAAAAAAAAAAAAAAAAAAAA.jpg'' =
     Some [137, 80, 78, 71] \<and>
   map image_path (messages (snd ex_send_both)) =
     [Some ''/home/site/data/uploads/AAAAAAAAAAAAAAAAAAAAAAAAAAAAAAAA.jpg''] \<and>
   map image_url (messages (snd ex_send_both)) = [Some ''https://img.example/a.png'']"
  by (simp add: ex_send_both_response ex_send_both_row ex_send_both_files ex_upload_def)


subsection \<open>Tokens\<close>

text \<open>
  C6. In every state the service can reach from the empty table, no two stored rows have
  the same token: the table refuses a row whose token is already stored. Every stored
  token is what \<open>token_urlsafe\<close> makes of the 24 bytes it got from the random source:
  32 characters of the URL-safe alphabet. \<open>token_urlsafe\<close> is injective on 24 bytes, so
  a token carries all 192 bits the random source gave.
\<close>

theorem token_unique_and_random:
  assumes "reachable s"
  shows "distinct (map token (messages s)) \<and>
         (\<forall>r \<in> set (messages s).
            \<exists>e. length e = 24 \<and> token r = token_urlsafe e \<and>
                length (token r) = 32 \<and> set (token r) \<subseteq> set url_alphabet) \<and>
         (\<forall>r. token r \<in> token ` set (messages s) \<longrightarrow> insert_message r s = Inl IntegrityError) \<and>
         inj_on token_urlsafe {e. length e = 24}"
proof -
  let ?drawn = "\<lambda>r. \<exists>e. length e = 24 \<and> token r = token_urlsafe e \<and>
                     length (token r) = 32 \<and> set (token r) \<subseteq> set url_alphabet"
  from assms have inv: "distinct (map token (messages s)) \<and> (\<forall>r \<in> set (messages s). ?drawn r)"
  proof (induction rule: reachable.induct)
    case start
    show ?case by (simp add: init_db_def)
  next
    case (send s entropy cfg now provider_ok to_addr body ttl_seconds subj img img_url)
    let ?s1 = "snd (send_link cfg entropy now provider_ok to_addr body ttl_seconds subj img
                      img_url s)"
    consider (rejected) "img = None" "\<not> truthy img_url"
      | (duplicate) "img \<noteq> None \<or> truthy img_url"
          "token_urlsafe entropy \<in> token ` set (messages s)"
      | (stored) "img \<noteq> None \<or> truthy img_url"
          "token_urlsafe entropy \<notin> token ` set (messages s)"
      by blast
    then show ?case
    proof cases
      case rejected
      then have "?s1 = s" by (simp add: send_link_reject)
      with send.IH show ?thesis by simp
    next
      case duplicate
      then have "messages ?s1 = messages s" by (rule send_link_duplicate(2))
      with send.IH show ?thesis by simp
    next
      case stored
      from send.hyps(2) have "?drawn \<lparr>token = token_urlsafe entropy, recipient = to_addr,
          subject = subj, text_col = body,
          image_path = map_option
            (\<lambda>f. join (UPLOAD_DIR cfg) (token_urlsafe entropy @ file_ext f)) img,
          image_url = img_url, expires_at = now + of_int ttl_seconds, created_at = now\<rparr>"
        using token_urlsafe_shape [of entropy] by auto
      with send.IH stored(2) show ?thesis
        unfolding send_link_messages [OF stored] by auto
    qed
  next
    case (viewed s t now)
    have "messages (snd (view t now s)) = messages s \<or>
          messages (snd (view t now s)) = filter (\<lambda>r. token r \<noteq> t) (messages s)"
      by (auto simp: view_def delete_message_def split: option.splits)
    with viewed.IH show ?case by (auto simp: distinct_map_filter)
  next
    case (image s t now)
    have "messages (snd (get_image t now s)) = messages s \<or>
          messages (snd (get_image t now s)) = filter (\<lambda>r. token r \<noteq> t) (messages s)"
      by (auto simp: get_image_def delete_message_def split: option.splits)
    with image.IH show ?case by (auto simp: distinct_map_filter)
  qed
  have key: "\<forall>r. token r \<in> token ` set (messages s) \<longrightarrow> insert_message r s = Inl IntegrityError"
    by (simp add: insert_message_def)
  from inv key token_urlsafe_inj show ?thesis by blast
qed

theorem token_unique_and_random_witness:
  "reachable (snd ex_send_both) \<and>
   map token (messages (snd ex_send_both)) = [''AAAAAAAAAAAAAAAAAAAAAAAAAAAAAAAA''] \<and>
   distinct (map token (messages (snd ex_send_both))) \<and>
   reachable (snd (send_link ex_cfg ex_entropy 200 True ''reader@mail.example'' ''again'' 60
                     ''Your secure link'' None (Some ''https://img.example/b.png'')
                     (snd ex_send_both))) \<and>
   distinct (map token (messages
     (snd (send_link ex_cfg ex_entropy 200 True ''reader@mail.example'' ''again'' 60
            ''Your secure link'' None (Some ''https://img.example/b.png'')
            (snd ex_send_both)))))"
proof -
  have len: "length ex_entropy = 24" by (simp add: ex_entropy_def)
  have r1: "reachable (snd ex_send_both)"
    unfolding ex_send_both_def by (rule reachable.send [OF reachable.start len])
  have r2: "reachable (snd (send_link ex_cfg ex_entropy 200 True ''reader@mail.example''
      ''again'' 60 ''Your secure link'' None (Some ''https://img.example/b.png'')
      (snd ex_send_both)))"
    by (rule reachable.send [OF r1 len])
  have m: "map token (messages (snd ex_send_both)) = [''AAAAAAAAAAAAAAAAAAAAAAAAAAAAAAAA'']"
    by (simp add: ex_send_both_row ex_token_def)
  from token_unique_and_random [OF r1] token_unique_and_random [OF r2] r1 r2 m
  show ?thesis by blast
qed

end
